theory Spec2Isabelle
  imports Complex_Main "HOL-Library.Word"
begin

unbundle bit_operations_syntax

section \<open>Machine integers\<close>

type_synonym u8 = "8 word"
type_synonym u32 = "32 word"
type_synonym u64 = "64 word"

section \<open>quic/codec/Types.h\<close>

type_synonym StreamId = u64
type_synonym PacketNum = u64

text \<open>\<^verbatim>\<open>PacketEvent\<close> is the packet number of the first packet of a clone group.\<close>

type_synonym PacketEvent = PacketNum

text \<open>
  A \<^verbatim>\<open>ConnectionId\<close> is its used prefix of at most twenty bytes; equality is length
  and content. A \<^verbatim>\<open>StatelessResetToken\<close> is an array of bytes.
\<close>

type_synonym ConnectionId = "u8 list"
type_synonym StatelessResetToken = "u8 list"

text \<open>
  Error codes are declared in \<^verbatim>\<open>QuicConstants.h\<close>; the functions here only copy and
  compare them.
\<close>

type_synonym ApplicationErrorCode = nat

text \<open>
  Times are counted in microseconds, the unit of every \<^verbatim>\<open>duration_cast\<close> in the
  functions below; \<^verbatim>\<open>std::chrono::microseconds\<close> is a signed count.
\<close>

type_synonym microseconds = int
type_synonym TimePoint = int

text \<open>
  The \<^verbatim>\<open>QUIC_SIMPLE_FRAME\<close> variant, with the fields of each frame struct in their
  order of declaration. Equality of two frames is equality of all fields, as the
  \<^verbatim>\<open>operator==\<close> of each struct has it.
\<close>

datatype QuicSimpleFrame =
    StopSendingFrame StreamId ApplicationErrorCode
  | MinStreamDataFrame StreamId u64 u64
  | ExpiredStreamDataFrame StreamId u64
  | PathChallengeFrame u64
  | PathResponseFrame u64
  | NewConnectionIdFrame u64 u64 ConnectionId StatelessResetToken
  | MaxStreamsFrame u64 bool
  | RetireConnectionIdFrame u64
  | PingFrame

text \<open>
  The \<^verbatim>\<open>QUIC_WRITE_FRAME\<close> variant. A \<^verbatim>\<open>WriteAckFrame\<close> holds its ack blocks
  (start and end of each interval) and the ack delay; a \<^verbatim>\<open>WriteStreamFrame\<close> holds
  stream id, offset, length and FIN; a \<^verbatim>\<open>WriteCryptoFrame\<close> offset and length.
\<close>

datatype QuicWriteFrame =
    PaddingFrame
  | RstStreamFrame StreamId ApplicationErrorCode u64
  | ConnectionCloseFrame nat string nat
  | MaxDataFrame u64
  | MaxStreamDataFrame StreamId u64
  | DataBlockedFrame u64
  | StreamDataBlockedFrame StreamId u64
  | StreamsBlockedFrame u64 bool
  | WriteAckFrame "(PacketNum \<times> PacketNum) list" microseconds
  | WriteStreamFrame StreamId u64 u64 bool
  | WriteCryptoFrame u64 u64
  | QuicSimpleFrame QuicSimpleFrame
  | NoopFrame

datatype HeaderForm = Long | Short

datatype LongHeaderTypes = Initial | Retry | Handshake | ZeroRtt

datatype ProtectionType = KeyPhaseZero | KeyPhaseOne

text \<open>
  A packet header is a long header (type, packet number) or a short header (protection
  type, connection id, packet number).
\<close>

datatype PacketHeader =
    LongHeader LongHeaderTypes PacketNum
  | ShortHeader ProtectionType ConnectionId PacketNum

fun getHeaderForm :: "PacketHeader \<Rightarrow> HeaderForm" where
  "getHeaderForm (LongHeader _ _) = Long"
| "getHeaderForm (ShortHeader _ _ _) = Short"

fun getPacketSequenceNum :: "PacketHeader \<Rightarrow> PacketNum" where
  "getPacketSequenceNum (LongHeader _ pn) = pn"
| "getPacketSequenceNum (ShortHeader _ _ pn) = pn"

record RegularQuicWritePacket =
  header :: PacketHeader
  frames :: "QuicWriteFrame list"

section \<open>Errors\<close>

datatype TransportErrorCode = PROTOCOL_VIOLATION | INVALID_MIGRATION

text \<open>
  A \<^verbatim>\<open>throw QuicTransportException(message, code)\<close> is the value
  \<open>QuicTransportException message code\<close>; a failed \<^verbatim>\<open>CHECK\<close>, which ends the
  process, is \<open>CheckFailure\<close>.
\<close>

datatype QuicError =
    QuicTransportException string TransportErrorCode
  | CheckFailure

section \<open>Connection state\<close>

text \<open>
  The fields of \<^verbatim>\<open>QuicConnectionStateBase\<close> that the functions below read and
  write. The stream manager is the table of its streams: \<^verbatim>\<open>getStream\<close> is a lookup
  and \<^verbatim>\<open>streamExists\<close> asks whether the lookup finds a stream. The qlog sink, when
  there is one, is the list of events recorded so far.
\<close>

record StreamBuffer =
  data :: "u8 list"
  offset :: u64
  eof :: bool

record QuicStreamState =
  id_stream :: StreamId
  retransmissionBuffer :: "u64 \<rightharpoonup> StreamBuffer"

record QuicCryptoStream =
  cryptoRetransmissionBuffer :: "u64 \<rightharpoonup> StreamBuffer"

record PendingEvents =
  pendingFrames :: "QuicSimpleFrame list"
  cancelPingTimeout :: bool
  pathChallenge :: "u64 option"
  schedulePathValidationTimeout :: bool

record TransportSettings =
  writeConnectionDataPacketsLimit :: u64
  pacingTimerTickInterval :: microseconds
  ackDelayExponent :: u64
  selfActiveConnectionIdLimit :: u64

record ConnectionIdData =
  connId :: ConnectionId
  sequenceNumber :: u64
  token :: StatelessResetToken

datatype QuicNodeType = Client | Server

datatype QLogEvent =
    PathValidationEvent bool
  | PacingMetricUpdate u64 microseconds

record QuicConnectionStateBase =
  nodeType :: QuicNodeType
  clientConnectionId :: "ConnectionId option"
  serverConnectionId :: "ConnectionId option"
  peerConnectionIds :: "ConnectionIdData list"
  transportSettings :: TransportSettings
  pendingEvents :: PendingEvents
  outstandingPathValidation :: "u64 option"
    \<comment> \<open>the path data of the outstanding \<^verbatim>\<open>PathChallengeFrame\<close>, if any\<close>
  pathChallengeStartTime :: TimePoint
  lrtt :: microseconds
    \<comment> \<open>\<^verbatim>\<open>lossState.lrtt\<close>, the latest RTT sample\<close>
  qLogger :: "QLogEvent list option"
  streams :: "StreamId \<rightharpoonup> QuicStreamState"
  partialReliabilityEnabled :: bool
  oneRttStream :: QuicCryptoStream
  outstandingPacketEvents :: "PacketEvent set"
  outstandingClonedPacketsCount :: u64

text \<open>
  Modelled from the spec: \<^verbatim>\<open>getStream\<close> and \<^verbatim>\<open>streamExists\<close> of the stream manager,
  which is not among the sources. The rebuilder has to "locate the stream", and the
  simple-frame processor acts "only if stream still exists", a stream that is not found
  being "silently dropped".
\<close>

definition getStream :: "QuicConnectionStateBase \<Rightarrow> StreamId \<Rightarrow> QuicStreamState option" where
  "getStream conn sid = streams conn sid"

definition streamExists :: "QuicConnectionStateBase \<Rightarrow> StreamId \<Rightarrow> bool" where
  "streamExists conn sid = (streams conn sid \<noteq> None)"

section \<open>quic/codec/QuicConnectionId\<close>

definition kMaxConnectionIdSize :: nat where
  "kMaxConnectionIdSize = 20"

text \<open>
  \<^verbatim>\<open>decodeConnectionIdLengths\<close>: the two nibbles of the packed byte; a non-zero
  nibble stands for a length three larger. The additions are done in \<^verbatim>\<open>int\<close> and
  stored back into a \<^verbatim>\<open>uint8_t\<close>.
\<close>

definition decodeConnectionIdLengths :: "u8 \<Rightarrow> u8 \<times> u8" where
  "decodeConnectionIdLengths connIdSize =
     (let dcidLen = drop_bit 4 connIdSize;
          scidLen = connIdSize AND 0x0F;
          dcidLen = (if dcidLen = 0 then 0 else ucast ((ucast dcidLen :: u32) + 3));
          scidLen = (if scidLen = 0 then 0 else ucast ((ucast scidLen :: u32) + 3))
      in (dcidLen, scidLen))"

text \<open>
  \<^verbatim>\<open>encodeConnectionIdLengths\<close>: the subtraction, the shift and the bitwise or
  are done after promotion to \<^verbatim>\<open>int\<close>; each store into a \<^verbatim>\<open>uint8_t\<close> keeps the low
  eight bits. The two \<^verbatim>\<open>DCHECK_LE\<close> against \<^verbatim>\<open>kMaxConnectionIdSize\<close> are debug-build
  assertions and do not change the value returned.
\<close>

definition encodeConnectionIdLengths :: "u8 \<Rightarrow> u8 \<Rightarrow> u8" where
  "encodeConnectionIdLengths destinationConnectionIdSize sourceConnectionIdSize =
     (let dstByte = (if destinationConnectionIdSize = 0 then (0 :: u8)
                     else ucast ((ucast destinationConnectionIdSize :: u32) - 3));
          srcByte = (if sourceConnectionIdSize = 0 then (0 :: u8)
                     else ucast ((ucast sourceConnectionIdSize :: u32) - 3))
      in ucast (push_bit 4 (ucast dstByte :: u32) OR (ucast srcByte :: u32)))"

section \<open>quic/state/SimpleFrameFunctions\<close>

text \<open>
  \<^verbatim>\<open>updateSimpleFrameOnPacketClone\<close>, one equation per case of the switch. A frame
  that is kept is returned as a copy of itself.
\<close>

fun updateSimpleFrameOnPacketClone ::
  "QuicConnectionStateBase \<Rightarrow> QuicSimpleFrame \<Rightarrow> QuicSimpleFrame option" where
  "updateSimpleFrameOnPacketClone conn PingFrame = Some PingFrame"
| "updateSimpleFrameOnPacketClone conn (StopSendingFrame sid ec) =
     (if \<not> streamExists conn sid then None else Some (StopSendingFrame sid ec))"
| "updateSimpleFrameOnPacketClone conn (MinStreamDataFrame sid maxData minOff) =
     (if \<not> streamExists conn sid then None else Some (MinStreamDataFrame sid maxData minOff))"
| "updateSimpleFrameOnPacketClone conn (ExpiredStreamDataFrame sid minOff) =
     (if \<not> streamExists conn sid then None else Some (ExpiredStreamDataFrame sid minOff))"
| "updateSimpleFrameOnPacketClone conn (PathChallengeFrame pathData) =
     (case outstandingPathValidation conn of
        None \<Rightarrow> None
      | Some outstanding \<Rightarrow>
          if pathData \<noteq> outstanding then None else Some (PathChallengeFrame pathData))"
| "updateSimpleFrameOnPacketClone conn (PathResponseFrame pathData) = None"
| "updateSimpleFrameOnPacketClone conn (NewConnectionIdFrame sq rpt cid tok) =
     Some (NewConnectionIdFrame sq rpt cid tok)"
| "updateSimpleFrameOnPacketClone conn (MaxStreamsFrame n bidi) = Some (MaxStreamsFrame n bidi)"
| "updateSimpleFrameOnPacketClone conn (RetireConnectionIdFrame sq) =
     Some (RetireConnectionIdFrame sq)"

text \<open>
  The functions of other files that \<^verbatim>\<open>updateSimpleFrameOnPacketReceived\<close> calls on
  the connection: the stream state machine, the partial-reliability handlers, the
  connection-id rotation, the RTT estimator and the stream limits. Each takes the
  connection and returns it as it leaves it; \<^verbatim>\<open>retireAndSwitchPeerConnectionIds\<close>
  also answers whether it rotated.
\<close>

record SimpleFrameHandlers =
  sendStopSendingSMHandler ::
    "QuicConnectionStateBase \<Rightarrow> StreamId \<Rightarrow> ApplicationErrorCode \<Rightarrow> QuicConnectionStateBase"
  onRecvMinStreamDataFrame ::
    "QuicConnectionStateBase \<Rightarrow> StreamId \<Rightarrow> u64 \<Rightarrow> u64 \<Rightarrow> PacketNum \<Rightarrow> QuicConnectionStateBase"
  onRecvExpiredStreamDataFrame ::
    "QuicConnectionStateBase \<Rightarrow> StreamId \<Rightarrow> u64 \<Rightarrow> QuicConnectionStateBase"
  retireAndSwitchPeerConnectionIds ::
    "QuicConnectionStateBase \<Rightarrow> bool \<times> QuicConnectionStateBase"
  updateRtt ::
    "QuicConnectionStateBase \<Rightarrow> microseconds \<Rightarrow> microseconds \<Rightarrow> QuicConnectionStateBase"
  setMaxLocalBidirectionalStreams ::
    "QuicConnectionStateBase \<Rightarrow> u64 \<Rightarrow> QuicConnectionStateBase"
  setMaxLocalUnidirectionalStreams ::
    "QuicConnectionStateBase \<Rightarrow> u64 \<Rightarrow> QuicConnectionStateBase"

text \<open>
  The loop over \<^verbatim>\<open>conn.peerConnectionIds\<close> of the NEW_CONNECTION_ID case: at the first
  entry with the frame's connection id it throws (another sequence number) or returns
  false (the same one); \<open>None\<close> when no entry has the frame's connection id.
\<close>

fun findRepeatedConnId ::
  "ConnectionIdData list \<Rightarrow> ConnectionId \<Rightarrow> u64 \<Rightarrow> (QuicError + bool) option" where
  "findRepeatedConnId [] cid sq = None"
| "findRepeatedConnId (existing # rest) cid sq =
     (if connId existing = cid then
        (if sequenceNumber existing \<noteq> sq then
           Some (Inl (QuicTransportException
             ''Repeated connection id with different sequence number.'' PROTOCOL_VIOLATION))
         else Some (Inr False))
      else findRepeatedConnId rest cid sq)"

text \<open>
  \<^verbatim>\<open>updateSimpleFrameOnPacketReceived\<close>. The result is what the call returns or
  throws, with the connection as the call leaves it. \<open>now\<close> is the reading of
  \<^verbatim>\<open>Clock::now()\<close>. The comparison of \<^verbatim>\<open>peerConnectionIds.size()\<close> with
  \<^verbatim>\<open>selfActiveConnectionIdLimit + 1\<close> is one of 64-bit unsigned values.
\<close>

fun updateSimpleFrameOnPacketReceived ::
  "SimpleFrameHandlers \<Rightarrow> TimePoint \<Rightarrow> QuicConnectionStateBase \<Rightarrow> QuicSimpleFrame \<Rightarrow>
     PacketNum \<Rightarrow> bool \<Rightarrow> (QuicError + bool) \<times> QuicConnectionStateBase" where
  "updateSimpleFrameOnPacketReceived h now conn PingFrame packetNum fromChangedPeerAddress =
     (Inr True, conn)"
| "updateSimpleFrameOnPacketReceived h now conn (StopSendingFrame sid ec) packetNum
       fromChangedPeerAddress =
     (case getStream conn sid of
        Some stream \<Rightarrow> (Inr True, sendStopSendingSMHandler h conn sid ec)
      | None \<Rightarrow> (Inr True, conn))"
| "updateSimpleFrameOnPacketReceived h now conn (MinStreamDataFrame sid maxData minOff) packetNum
       fromChangedPeerAddress =
     (case getStream conn sid of
        Some stream \<Rightarrow>
          if partialReliabilityEnabled conn
          then (Inr True, onRecvMinStreamDataFrame h conn sid maxData minOff packetNum)
          else (Inr True, conn)
      | None \<Rightarrow> (Inr True, conn))"
| "updateSimpleFrameOnPacketReceived h now conn (ExpiredStreamDataFrame sid minOff) packetNum
       fromChangedPeerAddress =
     (case getStream conn sid of
        Some stream \<Rightarrow>
          if partialReliabilityEnabled conn
          then (Inr True, onRecvExpiredStreamDataFrame h conn sid minOff)
          else (Inr True, conn)
      | None \<Rightarrow> (Inr True, conn))"
| "updateSimpleFrameOnPacketReceived h now conn (PathChallengeFrame pathData) packetNum
       fromChangedPeerAddress =
     (case retireAndSwitchPeerConnectionIds h conn of
        (rotatedId, conn') \<Rightarrow>
          if \<not> rotatedId then
            (Inl (QuicTransportException ''No more connection ids to use for new path.''
               INVALID_MIGRATION), conn')
          else
            (Inr False,
             conn'\<lparr>pendingEvents := (pendingEvents conn')
               \<lparr>pendingFrames :=
                  pendingFrames (pendingEvents conn') @ [PathResponseFrame pathData]\<rparr>\<rparr>))"
| "updateSimpleFrameOnPacketReceived h now conn (PathResponseFrame pathData) packetNum
       fromChangedPeerAddress =
     (if fromChangedPeerAddress \<or> outstandingPathValidation conn = None \<or>
         Some pathData \<noteq> outstandingPathValidation conn
      then (Inr False, conn)
      else
        let conn1 = (case qLogger conn of
                       Some events \<Rightarrow> conn\<lparr>qLogger := Some (events @ [PathValidationEvent True])\<rparr>
                     | None \<Rightarrow> conn);
            conn2 = conn1\<lparr>outstandingPathValidation := None\<rparr>;
            conn3 = conn2\<lparr>pendingEvents := (pendingEvents conn2)
                      \<lparr>schedulePathValidationTimeout := False\<rparr>\<rparr>;
            sampleRtt = now - pathChallengeStartTime conn3
        in (Inr False, updateRtt h conn3 sampleRtt 0))"
| "updateSimpleFrameOnPacketReceived h now conn (NewConnectionIdFrame sq rpt cid tok) packetNum
       fromChangedPeerAddress =
     (if rpt > sq then
        (Inl (QuicTransportException ''Retire prior to greater than sequence number''
           PROTOCOL_VIOLATION), conn)
      else
        case findRepeatedConnId (peerConnectionIds conn) cid sq of
          Some r \<Rightarrow> (r, conn)
        | None \<Rightarrow>
            let peerConnId = (if nodeType conn = Client then serverConnectionId conn
                              else clientConnectionId conn)
            in if peerConnId = None \<or> map_option length peerConnId = Some 0 then
                 (Inl (QuicTransportException
                    ''Endpoint is already using 0-len connection ids.'' PROTOCOL_VIOLATION), conn)
               else if (of_nat (length (peerConnectionIds conn)) :: u64) =
                       selfActiveConnectionIdLimit (transportSettings conn) + 1 then
                 (Inr False, conn)
               else
                 (Inr False,
                  conn\<lparr>peerConnectionIds := peerConnectionIds conn @
                    [\<lparr>connId = cid, sequenceNumber = sq, token = tok\<rparr>]\<rparr>))"
| "updateSimpleFrameOnPacketReceived h now conn (MaxStreamsFrame maxStreams isForBidirectional)
       packetNum fromChangedPeerAddress =
     (if isForBidirectional
      then (Inr True, setMaxLocalBidirectionalStreams h conn maxStreams)
      else (Inr True, setMaxLocalUnidirectionalStreams h conn maxStreams))"
| "updateSimpleFrameOnPacketReceived h now conn (RetireConnectionIdFrame sq) packetNum
       fromChangedPeerAddress =
     (Inr False, conn)"

section \<open>quic/congestion_control/Pacer\<close>

record PacingRate =
  interval :: microseconds
  burstSize :: u64

text \<open>
  The members of \<^verbatim>\<open>DefaultPacer\<close>, under their names without the trailing underscore.
  The pacer's reference \<^verbatim>\<open>conn_\<close> is the connection passed to each function.
\<close>

record DefaultPacer =
  minCwndInMss :: u64
  batchSize :: u64
  writeInterval :: microseconds
  scheduledWriteTime :: "TimePoint option"
  pacingRateCalculator ::
    "QuicConnectionStateBase \<Rightarrow> u64 \<Rightarrow> u64 \<Rightarrow> microseconds \<Rightarrow> PacingRate"
  cachedBatchSize :: u64
  appLimited :: bool
  tokens :: u64

text \<open>
  \<^verbatim>\<open>refreshPacingRate\<close>; the pacing metric update goes to the qlog sink of the
  connection when there is one.
\<close>

definition refreshPacingRate ::
  "QuicConnectionStateBase \<Rightarrow> DefaultPacer \<Rightarrow> u64 \<Rightarrow> microseconds \<Rightarrow>
     DefaultPacer \<times> QuicConnectionStateBase" where
  "refreshPacingRate conn p cwndBytes rtt =
     (let p1 =
        (if rtt < pacingTimerTickInterval (transportSettings conn) then
           p\<lparr>writeInterval := 0,
             batchSize := writeConnectionDataPacketsLimit (transportSettings conn)\<rparr>
         else
           let pacingRate = pacingRateCalculator p conn cwndBytes (minCwndInMss p) rtt
           in p\<lparr>writeInterval := interval pacingRate,
                batchSize := burstSize pacingRate,
                tokens := tokens p + burstSize pacingRate\<rparr>);
          conn1 =
        (case qLogger conn of
           Some events \<Rightarrow>
             conn\<lparr>qLogger := Some (events @ [PacingMetricUpdate (batchSize p1) (writeInterval p1)])\<rparr>
         | None \<Rightarrow> conn)
      in (p1\<lparr>cachedBatchSize := batchSize p1\<rparr>, conn1))"

definition onPacedWriteScheduled :: "DefaultPacer \<Rightarrow> TimePoint \<Rightarrow> DefaultPacer" where
  "onPacedWriteScheduled p currentTime = p\<lparr>scheduledWriteTime := Some currentTime\<rparr>"

definition onPacketSent :: "DefaultPacer \<Rightarrow> DefaultPacer" where
  "onPacketSent p = (if tokens p \<noteq> 0 then p\<lparr>tokens := tokens p - 1\<rparr> else p)"

definition onPacketsLoss :: "DefaultPacer \<Rightarrow> DefaultPacer" where
  "onPacketsLoss p = p\<lparr>tokens := 0\<rparr>"

definition getTimeUntilNextWrite :: "DefaultPacer \<Rightarrow> microseconds" where
  "getTimeUntilNextWrite p = (if appLimited p \<or> tokens p \<noteq> 0 then 0 else writeInterval p)"

text \<open>
  The expression
  \<^verbatim>\<open>std::ceil(adjustedInterval.count() * batchSize_ * 1.0 / writeInterval_.count())\<close>
  as it is stored into the 64-bit unsigned \<^verbatim>\<open>cachedBatchSize_\<close>. The product of the
  signed count and the unsigned batch size is a 64-bit unsigned product; the division
  and \<^verbatim>\<open>std::ceil\<close> are done in \<^verbatim>\<open>double\<close>, taken here as exact real arithmetic,
  which it is while the product is below \<open>2 ^ 53\<close>: every theorem below that
  reaches this expression is stated for products in that range.
\<close>

definition ceilBatchSize :: "microseconds \<Rightarrow> u64 \<Rightarrow> microseconds \<Rightarrow> u64" where
  "ceilBatchSize adjustedInterval batch writeIntervalCount =
     word_of_int \<lceil>real_of_int (uint (word_of_int adjustedInterval * batch))
                   / real_of_int writeIntervalCount\<rceil>"

text \<open>
  \<^verbatim>\<open>updateAndGetWriteBatchSize\<close> returns the batch size and the pacer it leaves; the
  \<^verbatim>\<open>SCOPE_EXIT\<close> clears \<^verbatim>\<open>scheduledWriteTime_\<close> on every return.
\<close>

definition updateAndGetWriteBatchSize ::
  "QuicConnectionStateBase \<Rightarrow> DefaultPacer \<Rightarrow> TimePoint \<Rightarrow> u64 \<times> DefaultPacer" where
  "updateAndGetWriteBatchSize conn p currentTime =
     (if appLimited p then
        let p1 = p\<lparr>cachedBatchSize :=
                   writeConnectionDataPacketsLimit (transportSettings conn)\<rparr>
        in (cachedBatchSize p1, p1\<lparr>scheduledWriteTime := None\<rparr>)
      else if writeInterval p = 0 then
        (batchSize p, p\<lparr>scheduledWriteTime := None\<rparr>)
      else
        case scheduledWriteTime p of
          None \<Rightarrow> (tokens p, p\<lparr>scheduledWriteTime := None\<rparr>)
        | Some scheduled \<Rightarrow>
            if scheduled \<ge> currentTime then (tokens p, p\<lparr>scheduledWriteTime := None\<rparr>)
            else
              let adjustedInterval = currentTime - scheduled + writeInterval p;
                  p1 = p\<lparr>cachedBatchSize :=
                    ceilBatchSize adjustedInterval (batchSize p) (writeInterval p)\<rparr>;
                  p2 = p1\<lparr>tokens := tokens p1 +
                    (if cachedBatchSize p1 > batchSize p1
                     then cachedBatchSize p1 - batchSize p1 else 0)\<rparr>
              in (tokens p2, p2\<lparr>scheduledWriteTime := None\<rparr>))"

definition getCachedWriteBatchSize :: "DefaultPacer \<Rightarrow> u64" where
  "getCachedWriteBatchSize p = cachedBatchSize p"

definition setAppLimited :: "DefaultPacer \<Rightarrow> bool \<Rightarrow> DefaultPacer" where
  "setAppLimited p limited = p\<lparr>appLimited := limited\<rparr>"

text \<open>
  The calls that change the token count, and a pacer and its connection after a
  sequence of them.
\<close>

datatype PacerCall =
    OnPacketSent
  | OnPacketsLoss
  | RefreshPacingRate u64 microseconds
  | UpdateAndGetWriteBatchSize TimePoint

fun pacerCall ::
  "DefaultPacer \<times> QuicConnectionStateBase \<Rightarrow> PacerCall \<Rightarrow>
     DefaultPacer \<times> QuicConnectionStateBase" where
  "pacerCall (p, conn) OnPacketSent = (onPacketSent p, conn)"
| "pacerCall (p, conn) OnPacketsLoss = (onPacketsLoss p, conn)"
| "pacerCall (p, conn) (RefreshPacingRate cwndBytes rtt) = refreshPacingRate conn p cwndBytes rtt"
| "pacerCall (p, conn) (UpdateAndGetWriteBatchSize currentTime) =
     (snd (updateAndGetWriteBatchSize conn p currentTime), conn)"

definition pacerCalls ::
  "DefaultPacer \<times> QuicConnectionStateBase \<Rightarrow> PacerCall list \<Rightarrow>
     DefaultPacer \<times> QuicConnectionStateBase" where
  "pacerCalls s calls = foldl pacerCall s calls"

text \<open>
  The token count as the specification words it, in unbounded integers and with no
  reference to the 64-bit arithmetic of the code: \<^verbatim>\<open>onPacketSent\<close> takes one token
  and stops at zero; \<^verbatim>\<open>onPacketsLoss\<close> sets the count to zero; \<^verbatim>\<open>refreshPacingRate\<close>
  adds the burst of the rate calculator unless the round-trip time is below the timer
  tick; \<^verbatim>\<open>updateAndGetWriteBatchSize\<close>, when pacing is on and the scheduled time is
  past, adds any excess of \<open>ceil (adjusted * burst / interval)\<close> over the burst,
  where \<open>adjusted = (now - scheduled) + interval\<close>. \<open>tokensSpec\<close> is that count
  after a sequence of calls; the pacer and the connection each call meets are those the
  code leaves.
\<close>

fun tokensSpecStep ::
  "DefaultPacer \<times> QuicConnectionStateBase \<Rightarrow> PacerCall \<Rightarrow> int \<Rightarrow> int" where
  "tokensSpecStep (p, conn) OnPacketSent n = max 0 (n - 1)"
| "tokensSpecStep (p, conn) OnPacketsLoss n = 0"
| "tokensSpecStep (p, conn) (RefreshPacingRate cwndBytes rtt) n =
     (if rtt < pacingTimerTickInterval (transportSettings conn) then n
      else n + uint (burstSize (pacingRateCalculator p conn cwndBytes (minCwndInMss p) rtt)))"
| "tokensSpecStep (p, conn) (UpdateAndGetWriteBatchSize currentTime) n =
     (if appLimited p \<or> writeInterval p = 0 then n
      else case scheduledWriteTime p of
             None \<Rightarrow> n
           | Some scheduled \<Rightarrow>
               if scheduled \<ge> currentTime then n
               else n + max 0
                 (\<lceil>real_of_int ((currentTime - scheduled + writeInterval p) * uint (batchSize p))
                    / real_of_int (writeInterval p)\<rceil> - uint (batchSize p)))"

fun tokensSpec ::
  "DefaultPacer \<times> QuicConnectionStateBase \<Rightarrow> PacerCall list \<Rightarrow> int \<Rightarrow> int" where
  "tokensSpec s [] n = n"
| "tokensSpec s (call # calls) n = tokensSpec (pacerCall s call) calls (tokensSpecStep s call n)"

text \<open>
  The range in which the drift compensation of the code is that of real arithmetic: a
  positive write interval and a product \<open>adjusted * burst\<close> below \<open>2 ^ 53\<close>,
  which neither wraps in 64 bits nor is rounded as a \<^verbatim>\<open>double\<close>. A sequence of calls is
  in range when each drift compensation is, and when the count of the specification
  stays below \<open>2 ^ 64\<close> after each call.
\<close>

fun driftInRange :: "DefaultPacer \<Rightarrow> PacerCall \<Rightarrow> bool" where
  "driftInRange p (UpdateAndGetWriteBatchSize currentTime) =
     (if appLimited p \<or> writeInterval p = 0 then True
      else case scheduledWriteTime p of
             None \<Rightarrow> True
           | Some scheduled \<Rightarrow>
               if scheduled \<ge> currentTime then True
               else 0 < writeInterval p \<and>
                    (currentTime - scheduled + writeInterval p) * uint (batchSize p) < 2 ^ 53)"
| "driftInRange p call = True"

fun callsInRange ::
  "DefaultPacer \<times> QuicConnectionStateBase \<Rightarrow> PacerCall list \<Rightarrow> int \<Rightarrow> bool" where
  "callsInRange s [] n = True"
| "callsInRange s (call # calls) n =
     (driftInRange (fst s) call \<and> tokensSpecStep s call n < 2 ^ 64 \<and>
      callsInRange (pacerCall s call) calls (tokensSpecStep s call n))"

section \<open>quic/codec/QuicPacketBuilder\<close>

text \<open>
  Modelled from the spec: \<^verbatim>\<open>QuicInteger::encode\<close>, which is not among the sources.
  "Top two bits of the first byte encode length class (00 to 1, 01 to 2, 10 to 4, 11 to
  8), remainder is the big-endian value. encode chooses the minimum class that fits."
  \<open>bigEndianBytes n v\<close> are the low \<open>n\<close> bytes of \<open>v\<close>, the most significant first.
\<close>

definition bigEndianBytes :: "nat \<Rightarrow> nat \<Rightarrow> u8 list" where
  "bigEndianBytes n v = map (\<lambda>i. of_nat (v div 2 ^ (8 * (n - 1 - i)))) [0..<n]"

definition encodeQuicInteger :: "nat \<Rightarrow> u8 list" where
  "encodeQuicInteger v =
     (if v < 2 ^ 6 then bigEndianBytes 1 v
      else if v < 2 ^ 14 then bigEndianBytes 2 (v + 0x4000)
      else if v < 2 ^ 30 then bigEndianBytes 4 (v + 0x80000000)
      else bigEndianBytes 8 (v + 0xC000000000000000))"

text \<open>
  Modelled from the spec: the frame type of PADDING, declared in \<^verbatim>\<open>QuicConstants.h\<close>:
  "PADDING frames (single-byte 0x00)".
\<close>

definition FrameType_PADDING :: nat where
  "FrameType_PADDING = 0"

definition kMaxPacketNumEncodingSize :: nat where
  "kMaxPacketNumEncodingSize = 4"

text \<open>
  Two constants that \<^verbatim>\<open>buildPacket\<close> uses are declared outside the sources and are
  parameters: \<^verbatim>\<open>kMaxPacketLenSize\<close>, the room reserved for the length field, and
  \<^verbatim>\<open>sizeof(Sample)\<close>, the size of the header-protection sample.
\<close>

record BuilderConstants =
  kMaxPacketLenSize :: nat
  sizeofSample :: nat

record PacketNumEncodingResult =
  result :: PacketNum
  length_enc :: nat

text \<open>
  The members of \<^verbatim>\<open>RegularQuicPacketBuilder\<close> after its constructor has written the
  header: \<^verbatim>\<open>remainingBytes_\<close>, \<^verbatim>\<open>packet_\<close>, the bytes of \<^verbatim>\<open>header_\<close> and
  \<^verbatim>\<open>body_\<close>, \<^verbatim>\<open>packetNumberEncoding_\<close> and \<^verbatim>\<open>cipherOverhead_\<close>.
\<close>

record RegularQuicPacketBuilder =
  remainingBytes :: u32
  packet_b :: RegularQuicWritePacket
  header_b :: "u8 list"
  body_b :: "u8 list"
  packetNumberEncoding :: PacketNumEncodingResult
  cipherOverhead :: nat

text \<open>\<^verbatim>\<open>write(const QuicInteger&)\<close>: the encoding goes to the body and its size off the budget.\<close>

definition write_b :: "RegularQuicPacketBuilder \<Rightarrow> nat \<Rightarrow> RegularQuicPacketBuilder" where
  "write_b b quicInteger =
     b\<lparr>body_b := body_b b @ encodeQuicInteger quicInteger,
       remainingBytes := remainingBytes b - of_nat (length (encodeQuicInteger quicInteger))\<rparr>"

text \<open>
  \<^verbatim>\<open>appendBytes(headerAppender_, value, byteNumber)\<close>: the last \<^verbatim>\<open>byteNumber\<close> bytes of
  the big-endian \<^verbatim>\<open>value\<close> go to the header, and \<^verbatim>\<open>byteNumber\<close> off the budget.
\<close>

definition appendBytes_header ::
  "RegularQuicPacketBuilder \<Rightarrow> PacketNum \<Rightarrow> nat \<Rightarrow> RegularQuicPacketBuilder" where
  "appendBytes_header b val byteNumber =
     b\<lparr>header_b := header_b b @ bigEndianBytes byteNumber (unat val),
       remainingBytes := remainingBytes b - of_nat byteNumber\<rparr>"

definition appendFrame ::
  "RegularQuicPacketBuilder \<Rightarrow> QuicWriteFrame \<Rightarrow> RegularQuicPacketBuilder" where
  "appendFrame b frame = b\<lparr>packet_b := (packet_b b)\<lparr>frames := frames (packet_b b) @ [frame]\<rparr>\<rparr>"

text \<open>
  \<^verbatim>\<open>minBodySize\<close> of \<^verbatim>\<open>buildPacket\<close>, computed in \<^verbatim>\<open>size_t\<close>.
\<close>

definition minBodySize :: "BuilderConstants \<Rightarrow> RegularQuicPacketBuilder \<Rightarrow> nat" where
  "minBodySize c b =
     nat ((int kMaxPacketNumEncodingSize - int (length_enc (packetNumberEncoding b))
           + int (sizeofSample c)) mod 2 ^ 64)"

text \<open>
  The padding loop of \<^verbatim>\<open>buildPacket\<close>, on \<^verbatim>\<open>extraDataWritten\<close> and the builder;
  \<open>minBody\<close> and \<open>bodyLength\<close> are the two values computed before the loop.
\<close>

function buildPacket_padding ::
  "BuilderConstants \<Rightarrow> nat \<Rightarrow> nat \<Rightarrow> nat \<times> RegularQuicPacketBuilder \<Rightarrow>
     nat \<times> RegularQuicPacketBuilder" where
  "buildPacket_padding c minBody bodyLength (extraDataWritten, b) =
     (if bodyLength + extraDataWritten + cipherOverhead b < minBody \<and>
         frames (packet_b b) \<noteq> [] \<and> unat (remainingBytes b) > kMaxPacketLenSize c
      then buildPacket_padding c minBody bodyLength
             (extraDataWritten + 1, write_b b FrameType_PADDING)
      else (extraDataWritten, b))"
  by pat_completeness auto
termination
  by (relation "measure (\<lambda>(c, minBody, bodyLength, extraDataWritten, b).
        minBody - (bodyLength + extraDataWritten + cipherOverhead b))")
     (auto simp: write_b_def)

declare buildPacket_padding.simps [simp del]

text \<open>
  \<^verbatim>\<open>buildPacket\<close> returns the packet, the header bytes and the body bytes. A long
  header that is not a Retry gets the length (packet number length, body length and
  cipher overhead) and the truncated packet number.
\<close>

definition buildPacket ::
  "BuilderConstants \<Rightarrow> RegularQuicPacketBuilder \<Rightarrow>
     RegularQuicWritePacket \<times> u8 list \<times> u8 list" where
  "buildPacket c b =
     (let minBody = minBodySize c b;
          bodyLength = length (body_b b);
          b1 = snd (buildPacket_padding c minBody bodyLength (0, b));
          b2 = (case header (packet_b b1) of
                  LongHeader headerType pn \<Rightarrow>
                    if headerType \<noteq> Retry then
                      appendBytes_header
                        (b1\<lparr>header_b := header_b b1 @
                            encodeQuicInteger (length_enc (packetNumberEncoding b1)
                              + length (body_b b1) + cipherOverhead b1)\<rparr>)
                        (result (packetNumberEncoding b1))
                        (length_enc (packetNumberEncoding b1))
                    else b1
                | ShortHeader protectionType cid pn \<Rightarrow> b1)
      in (packet_b b2, header_b b2, body_b b2))"

section \<open>quic/codec/QuicPacketRebuilder\<close>

text \<open>A \<^verbatim>\<open>Buf\<close> is a chain of bytes, or \<^verbatim>\<open>nullptr\<close>.\<close>

type_synonym Buf = "u8 list option"

record OutstandingPacket =
  packet :: RegularQuicWritePacket
  isHandshake :: bool
  associatedEvent :: "PacketEvent option"

text \<open>
  The functions of the write codec, the flow controller and the stream functions that
  the rebuilder calls are not among the sources and are parameters. A writer takes the
  builder and returns its result with the builder as it leaves it:
  \<^verbatim>\<open>writeAckFrame\<close> (given the ack blocks inserted, the ack delay and the exponent)
  answers whether it has a value, \<^verbatim>\<open>writeStreamFrameHeader\<close> the data length if any,
  \<^verbatim>\<open>writeCryptoFrame\<close> the offset and length written if any, \<^verbatim>\<open>writeFrame\<close> and
  \<^verbatim>\<open>writeSimpleFrame\<close> the number of bytes written.
\<close>

record WriteCodec =
  writeAckFrame ::
    "(PacketNum \<times> PacketNum) list \<Rightarrow> microseconds \<Rightarrow> u64 \<Rightarrow> RegularQuicPacketBuilder \<Rightarrow>
       bool \<times> RegularQuicPacketBuilder"
  writeStreamFrameHeader ::
    "RegularQuicPacketBuilder \<Rightarrow> StreamId \<Rightarrow> u64 \<Rightarrow> u64 \<Rightarrow> u64 \<Rightarrow> bool \<Rightarrow>
       u64 option \<times> RegularQuicPacketBuilder"
  writeStreamFrameData ::
    "RegularQuicPacketBuilder \<Rightarrow> Buf \<Rightarrow> u64 \<Rightarrow> RegularQuicPacketBuilder"
  writeCryptoFrame ::
    "u64 \<Rightarrow> Buf \<Rightarrow> RegularQuicPacketBuilder \<Rightarrow> (u64 \<times> u64) option \<times> RegularQuicPacketBuilder"
  writeFrame ::
    "QuicWriteFrame \<Rightarrow> RegularQuicPacketBuilder \<Rightarrow> nat \<times> RegularQuicPacketBuilder"
  writeSimpleFrame ::
    "QuicSimpleFrame \<Rightarrow> RegularQuicPacketBuilder \<Rightarrow> nat \<times> RegularQuicPacketBuilder"
  generateMaxDataFrame :: "QuicConnectionStateBase \<Rightarrow> QuicWriteFrame"
  generateMaxStreamDataFrame :: "QuicStreamState \<Rightarrow> QuicWriteFrame"
  retransmittable :: "QuicStreamState \<Rightarrow> bool"
  shouldSendFlowControl :: "QuicStreamState \<Rightarrow> bool"
  streamFrameMatchesRetransmitBuffer ::
    "QuicStreamState \<Rightarrow> StreamId \<Rightarrow> u64 \<Rightarrow> u64 \<Rightarrow> bool \<Rightarrow> StreamBuffer \<Rightarrow> bool"
  kDefaultAckDelayExponent :: u64

text \<open>
  \<^verbatim>\<open>cloneOutstandingPacket\<close> returns the event with the connection and the packet as
  it leaves them. Its two \<^verbatim>\<open>DCHECK\<close>s (an associated event is in the set; the packet
  number of a packet without one is not) are debug-build assertions.
\<close>

definition cloneOutstandingPacket ::
  "QuicConnectionStateBase \<Rightarrow> OutstandingPacket \<Rightarrow>
     PacketEvent \<times> QuicConnectionStateBase \<times> OutstandingPacket" where
  "cloneOutstandingPacket conn pkt =
     (case associatedEvent pkt of
        None \<Rightarrow>
          let packetNum = getPacketSequenceNum (header (packet pkt))
          in (packetNum,
              conn\<lparr>outstandingPacketEvents := insert packetNum (outstandingPacketEvents conn),
                   outstandingClonedPacketsCount := outstandingClonedPacketsCount conn + 1\<rparr>,
              pkt\<lparr>associatedEvent := Some packetNum\<rparr>)
      | Some event \<Rightarrow> (event, conn, pkt))"

text \<open>
  \<^verbatim>\<open>cloneRetransmissionBuffer\<close> for a stream frame (stream id, offset, length, FIN):
  the data stored at the frame's offset when the stored buffer matches the frame and
  the frame has a length, \<^verbatim>\<open>nullptr\<close> otherwise.
\<close>

definition cloneRetransmissionBuffer ::
  "WriteCodec \<Rightarrow> StreamId \<Rightarrow> u64 \<Rightarrow> u64 \<Rightarrow> bool \<Rightarrow> QuicStreamState \<Rightarrow> Buf" where
  "cloneRetransmissionBuffer w sid off len fin stream =
     (case retransmissionBuffer stream off of
        Some buf \<Rightarrow>
          if streamFrameMatchesRetransmitBuffer w stream sid off len fin buf
          then (if len \<noteq> 0 then Some (data buf) else None)
          else None
      | None \<Rightarrow> None)"

definition cloneCryptoRetransmissionBuffer :: "u64 \<Rightarrow> u64 \<Rightarrow> QuicCryptoStream \<Rightarrow> Buf" where
  "cloneCryptoRetransmissionBuffer off len stream =
     (case cryptoRetransmissionBuffer stream off of
        None \<Rightarrow> None
      | Some buf \<Rightarrow> Some (data buf))"

definition computeChainDataLength :: "u8 list \<Rightarrow> u64" where
  "computeChainDataLength buf = of_nat (length buf)"

text \<open>
  The local variables of \<^verbatim>\<open>rebuildFromPacket\<close> and the builder it writes to.
\<close>

record RebuildState =
  builder :: RegularQuicPacketBuilder
  writeSuccess :: bool
  windowUpdateWritten :: bool
  shouldWriteWindowUpdate :: bool
  notPureAck :: bool

text \<open>
  The body of the switch of \<^verbatim>\<open>rebuildFromPacket\<close> for one frame of the packet. The
  failed \<^verbatim>\<open>CHECK(!packet.isHandshake)\<close> of the crypto case is the error.
\<close>

fun rebuildFrame ::
  "WriteCodec \<Rightarrow> QuicConnectionStateBase \<Rightarrow> OutstandingPacket \<Rightarrow> QuicWriteFrame \<Rightarrow>
     RebuildState \<Rightarrow> QuicError + RebuildState" where
  "rebuildFrame w conn pkt (WriteAckFrame ackBlocks ackDelay) st =
     (let ackDelayExponent =
            (if getHeaderForm (header (packet_b (builder st))) = Long
             then kDefaultAckDelayExponent w
             else ackDelayExponent (transportSettings conn))
      in case writeAckFrame w ackBlocks ackDelay ackDelayExponent (builder st) of
           (hasValue, b1) \<Rightarrow> Inr (st\<lparr>builder := b1, writeSuccess := hasValue\<rparr>))"
| "rebuildFrame w conn pkt (WriteStreamFrame sid off len fin) st =
     (case getStream conn sid of
        Some stream \<Rightarrow>
          if retransmittable w stream then
            let streamData = cloneRetransmissionBuffer w sid off len fin stream;
                bufferLen = (case streamData of
                               Some buf \<Rightarrow> computeChainDataLength buf
                             | None \<Rightarrow> 0)
            in case writeStreamFrameHeader w (builder st) sid off bufferLen bufferLen fin of
                 (dataLen, b1) \<Rightarrow>
                   if dataLen = Some len then
                     Inr (st\<lparr>builder := writeStreamFrameData w b1 streamData len,
                              notPureAck := True, writeSuccess := True\<rparr>)
                   else Inr (st\<lparr>builder := b1, writeSuccess := False\<rparr>)
          else Inr (st\<lparr>writeSuccess := True\<rparr>)
      | None \<Rightarrow> Inr (st\<lparr>writeSuccess := True\<rparr>))"
| "rebuildFrame w conn pkt (WriteCryptoFrame off len) st =
     (if isHandshake pkt then Inl CheckFailure
      else
        case cloneCryptoRetransmissionBuffer off len (oneRttStream conn) of
          None \<Rightarrow> Inr (st\<lparr>writeSuccess := True\<rparr>)
        | Some buf \<Rightarrow>
            (case writeCryptoFrame w off (Some buf) (builder st) of
               (cryptoWriteResult, b1) \<Rightarrow>
                 let ret = (cryptoWriteResult = Some (off, len))
                 in Inr (st\<lparr>builder := b1, notPureAck := (notPureAck st \<or> ret),
                          writeSuccess := ret\<rparr>)))"
| "rebuildFrame w conn pkt (MaxDataFrame maximumData) st =
     (case writeFrame w (generateMaxDataFrame w conn) (builder st) of
        (written, b1) \<Rightarrow>
          let ret = (0 \<noteq> written)
          in Inr (st\<lparr>builder := b1, shouldWriteWindowUpdate := True,
                   windowUpdateWritten := (windowUpdateWritten st \<or> ret),
                   notPureAck := (notPureAck st \<or> ret), writeSuccess := True\<rparr>))"
| "rebuildFrame w conn pkt (MaxStreamDataFrame sid maximumData) st =
     (case getStream conn sid of
        None \<Rightarrow> Inr (st\<lparr>writeSuccess := True\<rparr>)
      | Some stream \<Rightarrow>
          if \<not> shouldSendFlowControl w stream then Inr (st\<lparr>writeSuccess := True\<rparr>)
          else
            case writeFrame w (generateMaxStreamDataFrame w stream) (builder st) of
              (written, b1) \<Rightarrow>
                let ret = (0 \<noteq> written)
                in Inr (st\<lparr>builder := b1, shouldWriteWindowUpdate := True,
                         windowUpdateWritten := (windowUpdateWritten st \<or> ret),
                         notPureAck := (notPureAck st \<or> ret), writeSuccess := True\<rparr>))"
| "rebuildFrame w conn pkt PaddingFrame st =
     (case writeFrame w PaddingFrame (builder st) of
        (written, b1) \<Rightarrow> Inr (st\<lparr>builder := b1, writeSuccess := (written \<noteq> 0)\<rparr>))"
| "rebuildFrame w conn pkt (QuicSimpleFrame simpleFrame) st =
     (case updateSimpleFrameOnPacketClone conn simpleFrame of
        None \<Rightarrow> Inr (st\<lparr>writeSuccess := True\<rparr>)
      | Some updatedSimpleFrame \<Rightarrow>
          (case writeSimpleFrame w updatedSimpleFrame (builder st) of
             (written, b1) \<Rightarrow>
               let ret = (written \<noteq> 0)
               in Inr (st\<lparr>builder := b1, notPureAck := (notPureAck st \<or> ret),
                        writeSuccess := ret\<rparr>)))"
| "rebuildFrame w conn pkt frame st =
     (case writeFrame w frame (builder st) of
        (written, b1) \<Rightarrow>
          let ret = (written \<noteq> 0)
          in Inr (st\<lparr>builder := b1, notPureAck := (notPureAck st \<or> ret),
                   writeSuccess := ret\<rparr>))"

text \<open>
  The loop of \<^verbatim>\<open>rebuildFromPacket\<close> over the frames of the packet. The result says
  whether the loop returned \<^verbatim>\<open>folly::none\<close> from inside (after a frame that left
  \<^verbatim>\<open>writeSuccess\<close> false), with the state it had reached.
\<close>

fun rebuildFrames ::
  "WriteCodec \<Rightarrow> QuicConnectionStateBase \<Rightarrow> OutstandingPacket \<Rightarrow> QuicWriteFrame list \<Rightarrow>
     RebuildState \<Rightarrow> QuicError + (bool \<times> RebuildState)" where
  "rebuildFrames w conn pkt [] st = Inr (False, st)"
| "rebuildFrames w conn pkt (frame # rest) st =
     (case rebuildFrame w conn pkt frame st of
        Inl e \<Rightarrow> Inl e
      | Inr st1 \<Rightarrow>
          if \<not> writeSuccess st1 then Inr (True, st1)
          else rebuildFrames w conn pkt rest st1)"

definition initialRebuildState :: "RegularQuicPacketBuilder \<Rightarrow> RebuildState" where
  "initialRebuildState b =
     \<lparr>builder = b, writeSuccess = False, windowUpdateWritten = False,
      shouldWriteWindowUpdate = False, notPureAck = False\<rparr>"

text \<open>
  \<^verbatim>\<open>rebuildFromPacket\<close> returns the clone event, if any, with the builder, the
  connection and the outstanding packet as the call leaves them.
\<close>

definition rebuildFromPacket ::
  "WriteCodec \<Rightarrow> QuicConnectionStateBase \<Rightarrow> RegularQuicPacketBuilder \<Rightarrow> OutstandingPacket \<Rightarrow>
     QuicError + (PacketEvent option \<times> RegularQuicPacketBuilder \<times> QuicConnectionStateBase \<times>
       OutstandingPacket)" where
  "rebuildFromPacket w conn b pkt =
     (case rebuildFrames w conn pkt (frames (packet pkt)) (initialRebuildState b) of
        Inl e \<Rightarrow> Inl e
      | Inr (True, st) \<Rightarrow> Inr (None, builder st, conn, pkt)
      | Inr (False, st) \<Rightarrow>
          if \<not> notPureAck st \<or>
             (shouldWriteWindowUpdate st \<and> \<not> windowUpdateWritten st \<and> \<not> writeSuccess st)
          then Inr (None, builder st, conn, pkt)
          else
            case cloneOutstandingPacket conn pkt of
              (event, conn1, pkt1) \<Rightarrow> Inr (Some event, builder st, conn1, pkt1))"

text \<open>
  The first \<^verbatim>\<open>DCHECK\<close> of \<^verbatim>\<open>cloneOutstandingPacket\<close>: the packet has never been
  cloned, or its associated event is still in the set of the connection. And the event
  of the clone group of a packet: its associated event, or its own packet number when
  it has never been cloned.
\<close>

definition clonable :: "QuicConnectionStateBase \<Rightarrow> OutstandingPacket \<Rightarrow> bool" where
  "clonable conn pkt =
     (case associatedEvent pkt of
        None \<Rightarrow> True
      | Some event \<Rightarrow> event \<in> outstandingPacketEvents conn)"

definition packetEvent :: "OutstandingPacket \<Rightarrow> PacketEvent" where
  "packetEvent pkt =
     (case associatedEvent pkt of
        None \<Rightarrow> getPacketSequenceNum (header (packet pkt))
      | Some event \<Rightarrow> event)"

text \<open>
  The same outstanding packet rebuilt once into each builder of a list, one call after
  the other, each call on the connection and the packet the call before has left.
\<close>

fun rebuildRepeatedly ::
  "WriteCodec \<Rightarrow> QuicConnectionStateBase \<Rightarrow> OutstandingPacket \<Rightarrow>
     RegularQuicPacketBuilder list \<Rightarrow>
     QuicError + (PacketEvent option list \<times> QuicConnectionStateBase \<times> OutstandingPacket)" where
  "rebuildRepeatedly w conn pkt [] = Inr ([], conn, pkt)"
| "rebuildRepeatedly w conn pkt (b # bs) =
     (case rebuildFromPacket w conn b pkt of
        Inl e \<Rightarrow> Inl e
      | Inr (event, b1, conn1, pkt1) \<Rightarrow>
          (case rebuildRepeatedly w conn1 pkt1 bs of
             Inl e \<Rightarrow> Inl e
           | Inr (events, conn2, pkt2) \<Rightarrow> Inr (event # events, conn2, pkt2)))"

text \<open>
  What became of one frame of the packet, read off the case of the switch that handles
  it and the builder it is written to: \<open>Failed\<close> when the case leaves
  \<^verbatim>\<open>writeSuccess\<close> false, so that the loop returns \<^verbatim>\<open>folly::none\<close> at this frame;
  \<open>AckOrPadding\<close> when an ACK or a PADDING frame was written; \<open>Cloned\<close> when a frame
  of another type was written; \<open>Skipped\<close> when the case counts as a success with
  nothing written (a stream that is gone or not retransmittable, crypto data that are
  gone, a window update that is not wanted or did not fit, a simple frame that
  \<^verbatim>\<open>updateSimpleFrameOnPacketClone\<close> filters out). This classification names the
  frames; the flags of the loop are those of \<open>rebuildFrame\<close>, and the two are
  compared in the properties below.
\<close>

datatype Reemit = Failed | Skipped | AckOrPadding | Cloned

fun reemit ::
  "WriteCodec \<Rightarrow> QuicConnectionStateBase \<Rightarrow> QuicWriteFrame \<Rightarrow> RegularQuicPacketBuilder \<Rightarrow>
     Reemit" where
  "reemit w conn (WriteAckFrame ackBlocks ackDelay) b =
     (if fst (writeAckFrame w ackBlocks ackDelay
               (if getHeaderForm (header (packet_b b)) = Long then kDefaultAckDelayExponent w
                else ackDelayExponent (transportSettings conn)) b)
      then AckOrPadding else Failed)"
| "reemit w conn PaddingFrame b =
     (if fst (writeFrame w PaddingFrame b) \<noteq> 0 then AckOrPadding else Failed)"
| "reemit w conn (WriteStreamFrame sid off len fin) b =
     (case getStream conn sid of
        None \<Rightarrow> Skipped
      | Some stream \<Rightarrow>
          if \<not> retransmittable w stream then Skipped
          else
            case cloneRetransmissionBuffer w sid off len fin stream of
              None \<Rightarrow>
                if fst (writeStreamFrameHeader w b sid off 0 0 fin) = Some len
                then Cloned else Failed
            | Some buf \<Rightarrow>
                if fst (writeStreamFrameHeader w b sid off (computeChainDataLength buf)
                          (computeChainDataLength buf) fin) = Some len
                then Cloned else Failed)"
| "reemit w conn (WriteCryptoFrame off len) b =
     (case cloneCryptoRetransmissionBuffer off len (oneRttStream conn) of
        None \<Rightarrow> Skipped
      | Some buf \<Rightarrow>
          if fst (writeCryptoFrame w off (Some buf) b) = Some (off, len) then Cloned
          else Failed)"
| "reemit w conn (MaxDataFrame maximumData) b =
     (if fst (writeFrame w (generateMaxDataFrame w conn) b) \<noteq> 0 then Cloned else Skipped)"
| "reemit w conn (MaxStreamDataFrame sid maximumData) b =
     (case getStream conn sid of
        None \<Rightarrow> Skipped
      | Some stream \<Rightarrow>
          if \<not> shouldSendFlowControl w stream then Skipped
          else if fst (writeFrame w (generateMaxStreamDataFrame w stream) b) \<noteq> 0 then Cloned
          else Skipped)"
| "reemit w conn (QuicSimpleFrame simpleFrame) b =
     (case updateSimpleFrameOnPacketClone conn simpleFrame of
        None \<Rightarrow> Skipped
      | Some updatedSimpleFrame \<Rightarrow>
          if fst (writeSimpleFrame w updatedSimpleFrame b) \<noteq> 0 then Cloned else Failed)"
| "reemit w conn frame b =
     (if fst (writeFrame w frame b) \<noteq> 0 then Cloned else Failed)"

text \<open>
  The builder after the case of one frame, and what became of the frames of a packet
  one after the other, up to the first that failed.
\<close>

definition builderAfter ::
  "WriteCodec \<Rightarrow> QuicConnectionStateBase \<Rightarrow> OutstandingPacket \<Rightarrow> QuicWriteFrame \<Rightarrow>
     RegularQuicPacketBuilder \<Rightarrow> RegularQuicPacketBuilder" where
  "builderAfter w conn pkt frame b =
     (case rebuildFrame w conn pkt frame (initialRebuildState b) of
        Inr st \<Rightarrow> builder st
      | Inl e \<Rightarrow> b)"

fun reemits ::
  "WriteCodec \<Rightarrow> QuicConnectionStateBase \<Rightarrow> OutstandingPacket \<Rightarrow> QuicWriteFrame list \<Rightarrow>
     RegularQuicPacketBuilder \<Rightarrow> Reemit list" where
  "reemits w conn pkt [] b = []"
| "reemits w conn pkt (frame # rest) b =
     (if reemit w conn frame b = Failed then [Failed]
      else reemit w conn frame b # reemits w conn pkt rest (builderAfter w conn pkt frame b))"

fun isAckOrPadding :: "QuicWriteFrame \<Rightarrow> bool" where
  "isAckOrPadding (WriteAckFrame ackBlocks ackDelay) = True"
| "isAckOrPadding PaddingFrame = True"
| "isAckOrPadding frame = False"

section \<open>Concrete states\<close>

text \<open>
  A client connection with one peer connection id (the initial one) and an active
  connection-id limit of one, and handlers that leave the connection as it is, but
  for \<open>updateRtt\<close>, which stores the sample as the latest RTT. They are the inputs
  at which the theorems below are instantiated.
\<close>

definition testHandlers :: SimpleFrameHandlers where
  "testHandlers =
     \<lparr>sendStopSendingSMHandler = (\<lambda>conn sid ec. conn),
      onRecvMinStreamDataFrame = (\<lambda>conn sid maxData minOff pn. conn),
      onRecvExpiredStreamDataFrame = (\<lambda>conn sid minOff. conn),
      retireAndSwitchPeerConnectionIds = (\<lambda>conn. (False, conn)),
      updateRtt = (\<lambda>conn sample ackDelay. conn\<lparr>lrtt := sample\<rparr>),
      setMaxLocalBidirectionalStreams = (\<lambda>conn n. conn),
      setMaxLocalUnidirectionalStreams = (\<lambda>conn n. conn)\<rparr>"

definition testConn :: QuicConnectionStateBase where
  "testConn =
     \<lparr>nodeType = Client,
      clientConnectionId = Some [1, 2, 3, 4],
      serverConnectionId = Some [5, 6, 7, 8],
      peerConnectionIds = [\<lparr>connId = [5, 6, 7, 8], sequenceNumber = 0, token = []\<rparr>],
      transportSettings =
        \<lparr>writeConnectionDataPacketsLimit = 5, pacingTimerTickInterval = 1,
         ackDelayExponent = 3, selfActiveConnectionIdLimit = 1\<rparr>,
      pendingEvents =
        \<lparr>pendingFrames = [], cancelPingTimeout = False, pathChallenge = None,
         schedulePathValidationTimeout = False\<rparr>,
      outstandingPathValidation = None,
      pathChallengeStartTime = 0,
      lrtt = 0,
      qLogger = None,
      streams = Map.empty,
      partialReliabilityEnabled = False,
      oneRttStream = \<lparr>cryptoRetransmissionBuffer = Map.empty\<rparr>,
      outstandingPacketEvents = {},
      outstandingClonedPacketsCount = 0\<rparr>"

definition testConnFull :: QuicConnectionStateBase where
  "testConnFull =
     testConn\<lparr>peerConnectionIds :=
       [\<lparr>connId = [5, 6, 7, 8], sequenceNumber = 0, token = []\<rparr>,
        \<lparr>connId = [9], sequenceNumber = 1, token = [7]\<rparr>]\<rparr>"

text \<open>The connection after a PATH_CHALLENGE with path data 42 was sent at time 100.\<close>

definition testConnChallenged :: QuicConnectionStateBase where
  "testConnChallenged =
     testConn\<lparr>outstandingPathValidation := Some 42, pathChallengeStartTime := 100,
       qLogger := Some [],
       pendingEvents := (pendingEvents testConn)\<lparr>schedulePathValidationTimeout := True\<rparr>\<rparr>"

text \<open>
  A pacer with the rate of \<^verbatim>\<open>PacerTest.Tokens\<close>, ten packets every ten milliseconds,
  and no tokens left.
\<close>

definition testPacer :: DefaultPacer where
  "testPacer =
     \<lparr>minCwndInMss = 2, batchSize = 10, writeInterval = 10000, scheduledWriteTime = None,
      pacingRateCalculator =
        (\<lambda>conn cwndBytes minCwnd rtt. \<lparr>interval = 10000, burstSize = 10\<rparr>),
      cachedBatchSize = 10, appLimited = False, tokens = 0\<rparr>"

text \<open>
  The constants of the builder at their values (a two-byte length field, a sixteen-byte
  sample), and a builder for a short-header packet with a one-byte packet number, an
  empty body and no cipher overhead.
\<close>

definition testConstants :: BuilderConstants where
  "testConstants = \<lparr>kMaxPacketLenSize = 2, sizeofSample = 16\<rparr>"

definition testBuilder :: RegularQuicPacketBuilder where
  "testBuilder =
     \<lparr>remainingBytes = 1200,
      packet_b = \<lparr>header = ShortHeader KeyPhaseZero [5, 6, 7, 8] 7, frames = []\<rparr>,
      header_b = [0x40, 5, 6, 7, 8, 7],
      body_b = [],
      packetNumberEncoding = \<lparr>result = 7, length_enc = 1\<rparr>,
      cipherOverhead = 0\<rparr>"

text \<open>
  A write codec that writes one byte for each frame it is given and records the frame,
  and nothing into a builder without budget; its stream header reports the smaller of
  buffer length and flow-control length, and nothing for an empty frame without FIN.
  A stored buffer matches a frame of the same offset, length and FIN.
\<close>

definition testCodec :: WriteCodec where
  "testCodec =
     \<lparr>writeAckFrame = (\<lambda>ackBlocks ackDelay ackDelayExponent b.
        if remainingBytes b = 0 then (False, b)
        else (True, appendFrame (write_b b 2) (WriteAckFrame ackBlocks ackDelay))),
      writeStreamFrameHeader = (\<lambda>b sid off writeBufferLen flowControlLen fin.
        if remainingBytes b = 0 \<or> (min writeBufferLen flowControlLen = 0 \<and> \<not> fin) then (None, b)
        else (Some (min writeBufferLen flowControlLen),
              appendFrame (write_b b 8)
                (WriteStreamFrame sid off (min writeBufferLen flowControlLen) fin))),
      writeStreamFrameData = (\<lambda>b buf len.
        b\<lparr>body_b := body_b b @ take (unat len) (case buf of Some d \<Rightarrow> d | None \<Rightarrow> []),
          remainingBytes := remainingBytes b - ucast len\<rparr>),
      writeCryptoFrame = (\<lambda>off buf b.
        case buf of
          None \<Rightarrow> (None, b)
        | Some d \<Rightarrow>
            if remainingBytes b = 0 then (None, b)
            else (Some (off, of_nat (length d)),
                  appendFrame (write_b b 6) (WriteCryptoFrame off (of_nat (length d))))),
      writeFrame = (\<lambda>frame b.
        if remainingBytes b = 0 then (0, b) else (1, appendFrame (write_b b 0) frame)),
      writeSimpleFrame = (\<lambda>frame b.
        if remainingBytes b = 0 then (0, b)
        else (1, appendFrame (write_b b 1) (QuicSimpleFrame frame))),
      generateMaxDataFrame = (\<lambda>conn. MaxDataFrame 0),
      generateMaxStreamDataFrame = (\<lambda>stream. MaxStreamDataFrame (id_stream stream) 0),
      retransmittable = (\<lambda>stream. True),
      shouldSendFlowControl = (\<lambda>stream. True),
      streamFrameMatchesRetransmitBuffer = (\<lambda>stream sid off len fin buf.
        off = offset buf \<and> len = of_nat (length (data buf)) \<and> fin = eof buf),
      kDefaultAckDelayExponent = 3\<rparr>"

text \<open>
  The connection with the stream 4, whose retransmission buffer is empty, and
  outstanding packets with the packet number 7 that were never cloned.
\<close>

definition testConnStream :: QuicConnectionStateBase where
  "testConnStream =
     testConn\<lparr>streams := [4 \<mapsto> \<lparr>id_stream = 4, retransmissionBuffer = Map.empty\<rparr>]\<rparr>"

definition testPacket :: OutstandingPacket where
  "testPacket =
     \<lparr>packet = \<lparr>header = ShortHeader KeyPhaseZero [5, 6, 7, 8] 7,
                 frames = [WriteStreamFrame 4 0 5 False, QuicSimpleFrame PingFrame]\<rparr>,
      isHandshake = False, associatedEvent = None\<rparr>"

definition testPacketPing :: OutstandingPacket where
  "testPacketPing =
     \<lparr>packet = \<lparr>header = ShortHeader KeyPhaseZero [5, 6, 7, 8] 7,
                 frames = [QuicSimpleFrame PingFrame]\<rparr>,
      isHandshake = False, associatedEvent = None\<rparr>"

definition testPacketFin :: OutstandingPacket where
  "testPacketFin =
     \<lparr>packet = \<lparr>header = ShortHeader KeyPhaseZero [5, 6, 7, 8] 7,
                 frames = [WriteStreamFrame 4 0 5 True, QuicSimpleFrame PingFrame]\<rparr>,
      isHandshake = False, associatedEvent = None\<rparr>"

definition testPacketPingStream :: OutstandingPacket where
  "testPacketPingStream =
     \<lparr>packet = \<lparr>header = ShortHeader KeyPhaseZero [5, 6, 7, 8] 7,
                 frames = [QuicSimpleFrame PingFrame, WriteStreamFrame 4 0 5 False]\<rparr>,
      isHandshake = False, associatedEvent = None\<rparr>"

section \<open>Properties of the connection-id length codec\<close>

lemma u8_range_cases:
  fixes d :: u8
  assumes "4 \<le> d" "d \<le> 18"
  shows "d \<in> set [4, 5, 6, 7, 8, 9, 10, 11, 12, 13, 14, 15, 16, 17, 18]"
proof -
  have "4 \<le> unat d" "unat d \<le> 18"
    using assms by (simp_all add: word_le_nat_alt)
  then have "unat d \<in> {4, 5, 6, 7, 8, 9, 10, 11, 12, 13, 14, 15, 16, 17, 18}"
    unfolding insert_iff empty_iff by arith
  then have "word_of_nat (unat d) \<in>
      (word_of_nat ` {4, 5, 6, 7, 8, 9, 10, 11, 12, 13, 14, 15, 16, 17, 18} :: u8 set)"
    by (rule imageI)
  then show ?thesis by simp
qed

lemma roundtrip_enumerated:
  "\<forall>d \<in> set [0, 4, 5, 6, 7, 8, 9, 10, 11, 12, 13, 14, 15, 16, 17, 18 :: u8].
   \<forall>s \<in> set [0, 4, 5, 6, 7, 8, 9, 10, 11, 12, 13, 14, 15, 16, 17, 18 :: u8].
     decodeConnectionIdLengths (encodeConnectionIdLengths d s) = (d, s)"
  by (simp add: decodeConnectionIdLengths_def encodeConnectionIdLengths_def)

text \<open>
  C6, as the code has it: the packed byte gives each length a nibble, so the lengths
  that survive encoding and decoding are 0 and 4 to 18 (the codes 0 and 1 to 15).
  For every destination length d and source length s among them,
  decodeConnectionIdLengths (encodeConnectionIdLengths d s) = (d, s).
\<close>

theorem connIdLengths_roundtrip:
  assumes "d \<in> {0} \<union> {4..18}" and "s \<in> {0} \<union> {4..18}"
  shows "decodeConnectionIdLengths (encodeConnectionIdLengths d s) = (d, s)"
proof -
  have d: "d \<in> set [0, 4, 5, 6, 7, 8, 9, 10, 11, 12, 13, 14, 15, 16, 17, 18]"
    using assms(1) u8_range_cases [of d] by auto
  have s: "s \<in> set [0, 4, 5, 6, 7, 8, 9, 10, 11, 12, 13, 14, 15, 16, 17, 18]"
    using assms(2) u8_range_cases [of s] by auto
  show ?thesis using roundtrip_enumerated d s by blast
qed

theorem connIdLengths_roundtrip_witness:
  "decodeConnectionIdLengths (encodeConnectionIdLengths 18 4) = (18, 4)"
  using connIdLengths_roundtrip [of 18 4] by simp

text \<open>
  The lengths 19 and 20, which the claim includes and \<^verbatim>\<open>kMaxConnectionIdSize\<close>
  allows, have the codes 16 and 17: the fifth bit of a destination code is shifted out
  of the byte, and the fifth bit of a source code lands in the destination nibble.
\<close>

theorem connIdLengths_roundtrip_counterexample:
  "unat (19 :: u8) \<le> kMaxConnectionIdSize \<and> unat (20 :: u8) \<le> kMaxConnectionIdSize \<and>
   decodeConnectionIdLengths (encodeConnectionIdLengths 19 0) = (0, 0) \<and>
   decodeConnectionIdLengths (encodeConnectionIdLengths 4 20) = (4, 4) \<and>
   decodeConnectionIdLengths (encodeConnectionIdLengths 0 19) = (4, 0)"
  by (simp add: decodeConnectionIdLengths_def encodeConnectionIdLengths_def
        kMaxConnectionIdSize_def)

section \<open>Properties of the simple-frame processor\<close>

lemma findRepeatedConnId_message:
  "findRepeatedConnId ids cid sq \<noteq>
     Some (Inl (QuicTransportException ''Retire prior to greater than sequence number''
       PROTOCOL_VIOLATION))"
  by (induction ids) auto

text \<open>
  C3: a received NEW_CONNECTION_ID frame whose retirePriorTo is greater than its
  sequenceNumber makes the receive handler throw the transport exception
  "Retire prior to greater than sequence number" with code PROTOCOL_VIOLATION, and the
  connection (its peerConnectionIds among the rest) is as it was; a frame with
  retirePriorTo at most sequenceNumber never throws that exception.
\<close>

theorem newConnectionId_retirePriorTo_violation:
  "(sq < rpt \<longrightarrow>
      updateSimpleFrameOnPacketReceived h now conn (NewConnectionIdFrame sq rpt cid tok) pn fc =
        (Inl (QuicTransportException ''Retire prior to greater than sequence number''
           PROTOCOL_VIOLATION), conn)) \<and>
   (rpt \<le> sq \<longrightarrow>
      fst (updateSimpleFrameOnPacketReceived h now conn (NewConnectionIdFrame sq rpt cid tok)
             pn fc) \<noteq>
        Inl (QuicTransportException ''Retire prior to greater than sequence number''
           PROTOCOL_VIOLATION))"
proof (intro conjI impI)
  assume "sq < rpt"
  then show "updateSimpleFrameOnPacketReceived h now conn (NewConnectionIdFrame sq rpt cid tok)
      pn fc =
    (Inl (QuicTransportException ''Retire prior to greater than sequence number''
       PROTOCOL_VIOLATION), conn)"
    by simp
next
  assume le: "rpt \<le> sq"
  show "fst (updateSimpleFrameOnPacketReceived h now conn (NewConnectionIdFrame sq rpt cid tok)
      pn fc) \<noteq>
    Inl (QuicTransportException ''Retire prior to greater than sequence number''
       PROTOCOL_VIOLATION)"
    using le findRepeatedConnId_message [of "peerConnectionIds conn" cid sq]
    by (auto simp: Let_def split: option.splits)
qed

theorem newConnectionId_retirePriorTo_violation_witness:
  "fst (updateSimpleFrameOnPacketReceived testHandlers 0 testConn
          (NewConnectionIdFrame 2 3 [9] [7]) 0 False) =
     Inl (QuicTransportException ''Retire prior to greater than sequence number''
       PROTOCOL_VIOLATION) \<and>
   peerConnectionIds (snd (updateSimpleFrameOnPacketReceived testHandlers 0 testConn
          (NewConnectionIdFrame 2 3 [9] [7]) 0 False)) = peerConnectionIds testConn \<and>
   updateSimpleFrameOnPacketReceived testHandlers 0 testConn
          (NewConnectionIdFrame 1 0 [9] [7]) 0 False =
     (Inr False, testConn\<lparr>peerConnectionIds := peerConnectionIds testConn @
        [\<lparr>connId = [9], sequenceNumber = 1, token = [7]\<rparr>]\<rparr>)"
  using newConnectionId_retirePriorTo_violation
          [of 2 3 testHandlers 0 testConn "[9]" "[7]" 0 False]
        newConnectionId_retirePriorTo_violation
          [of 1 0 testHandlers 0 testConn "[9]" "[7]" 0 False]
  by (simp add: testConn_def)

lemma findRepeatedConnId_None:
  "findRepeatedConnId ids cid sq = None \<longleftrightarrow> cid \<notin> connId ` set ids"
  by (induction ids) auto

lemma size_eq_limit:
  fixes limit :: u64
  assumes "length ids \<le> unat limit + 1" and "limit \<noteq> - 1"
  shows "((of_nat (length ids) :: u64) = limit + 1) = (length ids = unat limit + 1)"
proof -
  have lim: "unat limit + 1 < 2 ^ 64"
  proof -
    have "unat limit < 2 ^ 64" using unsigned_less [of limit] by simp
    moreover have "unat limit \<noteq> 2 ^ 64 - 1"
    proof
      assume "unat limit = 2 ^ 64 - 1"
      then have "word_of_nat (unat limit) = (word_of_nat (2 ^ 64 - 1) :: u64)" by simp
      then have "limit = - 1" by simp
      with assms(2) show False by simp
    qed
    ultimately show ?thesis by arith
  qed
  have u1: "unat (limit + 1) = unat limit + 1"
    using lim by (simp add: unat_word_ariths)
  have len: "length ids < 2 ^ 64" using assms(1) lim by arith
  have u2: "unat (of_nat (length ids) :: u64) = length ids"
    using len by (simp add: unat_of_nat)
  show ?thesis
  proof
    assume "(of_nat (length ids) :: u64) = limit + 1"
    then have "unat (of_nat (length ids) :: u64) = unat (limit + 1)" by simp
    then show "length ids = unat limit + 1" using u1 u2 by simp
  next
    assume "length ids = unat limit + 1"
    then have "unat (of_nat (length ids) :: u64) = unat (limit + 1)" using u1 u2 by simp
    then show "(of_nat (length ids) :: u64) = limit + 1" by (simp only: word_unat_eq_iff)
  qed
qed

lemma size_bound_step:
  fixes limit :: u64
  assumes "length ids \<le> unat limit + 1" and "(of_nat (length ids) :: u64) \<noteq> limit + 1"
  shows "length ids + 1 \<le> unat limit + 1"
proof (cases "limit = - 1")
  case True
  then have ul: "unat limit = 2 ^ 64 - 1"
    by (simp add: unsigned_minus_1_eq_mask mask_eq_exp_minus_1)
  have "length ids \<noteq> 2 ^ 64"
  proof
    assume "length ids = 2 ^ 64"
    then have "(of_nat (length ids) :: u64) = 0" by simp
    with assms(2) True show False by simp
  qed
  with assms(1) ul show ?thesis by simp
next
  case False
  from size_eq_limit [OF assms(1) False] assms show ?thesis by simp
qed

text \<open>
  C4, as the code has it: the checks of the NEW_CONNECTION_ID case run before the cap.
  For every received NEW_CONNECTION_ID frame, a peerConnectionIds of at most
  selfActiveConnectionIdLimit + 1 entries stays so. A frame that passes the checks
  (retirePriorTo at most sequenceNumber, a connection id not yet in the set, a peer
  connection id in use that is not empty) is silently ignored when the set holds
  selfActiveConnectionIdLimit + 1 entries: the handler returns false and the connection
  is as it was. When the set holds fewer (and the limit is below 2^64 - 1, so that the
  64-bit sum does not wrap), such a frame appends exactly the entry
  {connId, sequenceNumber, token}.
\<close>

theorem newConnectionId_cap:
  fixes conn :: QuicConnectionStateBase and h :: SimpleFrameHandlers and now :: TimePoint
    and sq rpt :: u64 and cid :: ConnectionId and tok :: StatelessResetToken
    and pn :: PacketNum and fc :: bool
  defines "limit \<equiv> selfActiveConnectionIdLimit (transportSettings conn)"
  defines "r \<equiv> updateSimpleFrameOnPacketReceived h now conn (NewConnectionIdFrame sq rpt cid tok)
                 pn fc"
  defines "valid \<equiv> rpt \<le> sq \<and> cid \<notin> connId ` set (peerConnectionIds conn) \<and>
     (\<exists>b bs. (if nodeType conn = Client then serverConnectionId conn
               else clientConnectionId conn) = Some (b # bs))"
  shows
  "(length (peerConnectionIds conn) \<le> unat limit + 1 \<longrightarrow>
      length (peerConnectionIds (snd r)) \<le> unat limit + 1) \<and>
   (valid \<and> length (peerConnectionIds conn) = unat limit + 1 \<longrightarrow> r = (Inr False, conn)) \<and>
   (valid \<and> length (peerConnectionIds conn) < unat limit + 1 \<and> limit \<noteq> - 1 \<longrightarrow>
      r = (Inr False, conn\<lparr>peerConnectionIds := peerConnectionIds conn @
             [\<lparr>connId = cid, sequenceNumber = sq, token = tok\<rparr>]\<rparr>))"
proof (intro conjI impI)
  assume inv: "length (peerConnectionIds conn) \<le> unat limit + 1"
  show "length (peerConnectionIds (snd r)) \<le> unat limit + 1"
  proof (cases "(of_nat (length (peerConnectionIds conn)) :: u64) = limit + 1")
    case True
    then show ?thesis using inv
      by (auto simp: r_def limit_def Let_def split: option.splits)
  next
    case False
    from size_bound_step [OF inv False] inv False show ?thesis
      by (auto simp: r_def limit_def Let_def split: option.splits)
  qed
next
  assume a: "valid \<and> length (peerConnectionIds conn) = unat limit + 1"
  then have "(of_nat (length (peerConnectionIds conn)) :: u64) = limit + 1" by simp
  moreover have "findRepeatedConnId (peerConnectionIds conn) cid sq = None"
    using a by (simp add: valid_def findRepeatedConnId_None)
  ultimately show "r = (Inr False, conn)"
    using a by (auto simp: r_def limit_def valid_def Let_def)
next
  assume a: "valid \<and> length (peerConnectionIds conn) < unat limit + 1 \<and> limit \<noteq> - 1"
  then have "(of_nat (length (peerConnectionIds conn)) :: u64) \<noteq> limit + 1"
    using size_eq_limit [of "peerConnectionIds conn" limit] by simp
  moreover have "findRepeatedConnId (peerConnectionIds conn) cid sq = None"
    using a by (simp add: valid_def findRepeatedConnId_None)
  ultimately show "r = (Inr False, conn\<lparr>peerConnectionIds := peerConnectionIds conn @
             [\<lparr>connId = cid, sequenceNumber = sq, token = tok\<rparr>]\<rparr>)"
    using a by (auto simp: r_def limit_def valid_def Let_def)
qed

theorem newConnectionId_cap_witness:
  "updateSimpleFrameOnPacketReceived testHandlers 0 testConn
      (NewConnectionIdFrame 1 0 [9] [7]) 0 False = (Inr False, testConnFull) \<and>
   updateSimpleFrameOnPacketReceived testHandlers 0 testConnFull
      (NewConnectionIdFrame 2 0 [10] [7]) 0 False = (Inr False, testConnFull) \<and>
   length (peerConnectionIds testConnFull) = 2"
  using newConnectionId_cap [where conn = testConn and h = testHandlers and now = 0 and
      sq = 1 and rpt = 0 and cid = "[9]" and tok = "[7]" and pn = 0 and fc = False]
    newConnectionId_cap [where conn = testConnFull and h = testHandlers and now = 0 and
      sq = 2 and rpt = 0 and cid = "[10]" and tok = "[7]" and pn = 0 and fc = False]
  by (simp add: testConn_def testConnFull_def)

text \<open>
  With the set full (two entries, limit one), a frame whose retirePriorTo exceeds its
  sequenceNumber and a frame that repeats a connection id under another sequence number
  both throw, where the claim has them silently ignored. With the set not full, a
  non-duplicate frame whose retirePriorTo exceeds its sequenceNumber, or one received
  while the peer connection id in use is empty, throws and appends nothing.
\<close>

theorem newConnectionId_cap_counterexample:
  "length (peerConnectionIds testConnFull) =
     unat (selfActiveConnectionIdLimit (transportSettings testConnFull)) + 1 \<and>
   updateSimpleFrameOnPacketReceived testHandlers 0 testConnFull
      (NewConnectionIdFrame 2 3 [10] [7]) 0 False =
     (Inl (QuicTransportException ''Retire prior to greater than sequence number''
        PROTOCOL_VIOLATION), testConnFull) \<and>
   updateSimpleFrameOnPacketReceived testHandlers 0 testConnFull
      (NewConnectionIdFrame 5 0 [9] [7]) 0 False =
     (Inl (QuicTransportException ''Repeated connection id with different sequence number.''
        PROTOCOL_VIOLATION), testConnFull) \<and>
   length (peerConnectionIds testConn) <
     unat (selfActiveConnectionIdLimit (transportSettings testConn)) + 1 \<and>
   updateSimpleFrameOnPacketReceived testHandlers 0 testConn
      (NewConnectionIdFrame 2 3 [10] [7]) 0 False =
     (Inl (QuicTransportException ''Retire prior to greater than sequence number''
        PROTOCOL_VIOLATION), testConn) \<and>
   updateSimpleFrameOnPacketReceived testHandlers 0 (testConn\<lparr>serverConnectionId := Some []\<rparr>)
      (NewConnectionIdFrame 1 0 [10] [7]) 0 False =
     (Inl (QuicTransportException ''Endpoint is already using 0-len connection ids.''
        PROTOCOL_VIOLATION), testConn\<lparr>serverConnectionId := Some []\<rparr>)"
  by (simp add: testConn_def testConnFull_def)

text \<open>
  C7: receiving a PATH_RESPONSE frame clears outstandingPathValidation, cancels the
  path-validation timeout and updates the RTT with now - pathChallengeStartTime if and
  only if the frame did not come from a changed peer address and its path data is that
  of the outstanding challenge: then the handler returns false and the connection is
  what updateRtt makes of the cleared one; otherwise it returns false and the connection
  is as it was. It returns false in every case, and a response from a changed peer
  address leaves outstandingPathValidation as it was.
\<close>

theorem pathResponse_received:
  fixes conn :: QuicConnectionStateBase and h :: SimpleFrameHandlers and now :: TimePoint
    and pathData :: u64 and pn :: PacketNum and fc :: bool
  defines "r \<equiv> updateSimpleFrameOnPacketReceived h now conn (PathResponseFrame pathData) pn fc"
  defines "cleared \<equiv>
     (case qLogger conn of
        Some events \<Rightarrow> conn\<lparr>qLogger := Some (events @ [PathValidationEvent True])\<rparr>
      | None \<Rightarrow> conn)
     \<lparr>outstandingPathValidation := None,
      pendingEvents := (pendingEvents conn)\<lparr>schedulePathValidationTimeout := False\<rparr>\<rparr>"
  shows
  "(\<not> fc \<and> outstandingPathValidation conn = Some pathData \<longrightarrow>
      r = (Inr False, updateRtt h cleared (now - pathChallengeStartTime conn) 0) \<and>
      outstandingPathValidation cleared = None \<and>
      \<not> schedulePathValidationTimeout (pendingEvents cleared)) \<and>
   (\<not> (\<not> fc \<and> outstandingPathValidation conn = Some pathData) \<longrightarrow> r = (Inr False, conn)) \<and>
   fst r = Inr False \<and>
   (fc \<longrightarrow> outstandingPathValidation (snd r) = outstandingPathValidation conn)"
  by (auto simp: r_def cleared_def Let_def split: option.splits)

theorem pathResponse_received_witness:
  "updateSimpleFrameOnPacketReceived testHandlers 350 testConnChallenged
      (PathResponseFrame 42) 0 False =
     (Inr False, testConnChallenged\<lparr>outstandingPathValidation := None,
        qLogger := Some [PathValidationEvent True],
        lrtt := 250,
        pendingEvents := (pendingEvents testConn)\<lparr>schedulePathValidationTimeout := False\<rparr>\<rparr>) \<and>
   updateSimpleFrameOnPacketReceived testHandlers 350 testConnChallenged
      (PathResponseFrame 42) 0 True = (Inr False, testConnChallenged) \<and>
   updateSimpleFrameOnPacketReceived testHandlers 350 testConnChallenged
      (PathResponseFrame 41) 0 False = (Inr False, testConnChallenged)"
  using pathResponse_received [where fc = False and conn = testConnChallenged and
      pathData = 42 and h = testHandlers and now = 350 and pn = 0]
    pathResponse_received [where fc = True and conn = testConnChallenged and
      pathData = 42 and h = testHandlers and now = 350 and pn = 0]
    pathResponse_received [where fc = False and conn = testConnChallenged and
      pathData = 41 and h = testHandlers and now = 350 and pn = 0]
  by (simp add: testConn_def testConnChallenged_def testHandlers_def)

text \<open>
  C10: updateSimpleFrameOnPacketClone is identity-or-drop. For every connection state
  and every simple frame f the result is absent or the frame f itself, and for a
  PATH_RESPONSE frame it is always absent.
\<close>

theorem clone_identity_or_drop:
  "(updateSimpleFrameOnPacketClone conn f = None \<or>
    updateSimpleFrameOnPacketClone conn f = Some f) \<and>
   updateSimpleFrameOnPacketClone conn (PathResponseFrame pathData) = None"
  by (cases f) (auto split: option.splits)

section \<open>Properties of the pacer\<close>

lemma uint_product:
  fixes b :: u64
  assumes "0 \<le> a * uint b" and "a * uint b < 2 ^ 64"
  shows "uint (word_of_int a * b) = a * uint b"
proof -
  have "uint (word_of_int a * b) = (uint (word_of_int a :: u64) * uint b) mod 2 ^ 64"
    by (simp add: uint_word_ariths)
  also have "\<dots> = (a mod 2 ^ 64 * uint b) mod 2 ^ 64"
    by (simp add: uint_word_of_int)
  also have "\<dots> = (a * uint b) mod 2 ^ 64"
    by (simp add: mod_mult_left_eq)
  also have "\<dots> = a * uint b"
    using assms by simp
  finally show ?thesis .
qed

lemma ceiling_quotient_bounds:
  fixes n i m :: int
  assumes "0 < i" and "0 \<le> n" and "m * i \<le> n"
  shows "m \<le> \<lceil>real_of_int n / real_of_int i\<rceil>" and "\<lceil>real_of_int n / real_of_int i\<rceil> \<le> n"
proof -
  have "real_of_int m * real_of_int i \<le> real_of_int n"
    using assms(3) by (metis of_int_le_iff of_int_mult)
  then have "real_of_int m \<le> real_of_int n / real_of_int i"
    using assms(1) by (simp add: pos_le_divide_eq)
  then show "m \<le> \<lceil>real_of_int n / real_of_int i\<rceil>"
    by (simp add: le_ceiling_iff)
  have "real_of_int n / real_of_int i \<le> real_of_int n"
  proof -
    have "1 \<le> real_of_int i" using assms(1) by simp
    moreover have "0 \<le> real_of_int n" using assms(2) by simp
    ultimately have "real_of_int n \<le> real_of_int n * real_of_int i"
      by (metis mult.right_neutral mult_left_mono)
    then show ?thesis using assms(1) by (simp add: pos_divide_le_eq)
  qed
  then show "\<lceil>real_of_int n / real_of_int i\<rceil> \<le> n"
    by (simp add: ceiling_le_iff)
qed

lemma word_excess:
  fixes b :: u64
  assumes "uint b \<le> c" and "c < 2 ^ 64"
  shows "(if word_of_int c > b then word_of_int c - b else 0) = word_of_int c - b"
proof -
  have c0: "0 \<le> c" using assms(1) uint_ge_0 [of b] by linarith
  have uc: "uint (word_of_int c :: u64) = c"
    using c0 assms(2) by (simp add: uint_word_of_int)
  show ?thesis
  proof (cases "word_of_int c > b")
    case True
    then show ?thesis by simp
  next
    case False
    then have "uint (word_of_int c :: u64) \<le> uint b" by (simp add: word_less_def not_less word_le_def)
    with uc assms(1) have "uint (word_of_int c :: u64) = uint b" by simp
    then have "word_of_int c = b" by (simp only: word_uint_eq_iff)
    then show ?thesis by simp
  qed
qed

lemma drift_general:
  assumes na: "\<not> appLimited p" and ipos: "0 < writeInterval p" and lt: "t < now"
    and bound: "(now - t + writeInterval p) * uint (batchSize p) < 2 ^ 53"
  shows "updateAndGetWriteBatchSize conn (onPacedWriteScheduled p t) now =
     (tokens p +
        (word_of_int \<lceil>real_of_int ((now - t + writeInterval p) * uint (batchSize p))
                        / real_of_int (writeInterval p)\<rceil> - batchSize p),
      p\<lparr>cachedBatchSize :=
           word_of_int \<lceil>real_of_int ((now - t + writeInterval p) * uint (batchSize p))
                          / real_of_int (writeInterval p)\<rceil>,
        tokens := tokens p +
          (word_of_int \<lceil>real_of_int ((now - t + writeInterval p) * uint (batchSize p))
                          / real_of_int (writeInterval p)\<rceil> - batchSize p),
        scheduledWriteTime := None\<rparr>)"
proof -
  define a where "a = now - t + writeInterval p"
  define n where "n = a * uint (batchSize p)"
  define c where "c = \<lceil>real_of_int n / real_of_int (writeInterval p)\<rceil>"
  have apos: "0 < a" using lt ipos by (simp add: a_def)
  have n0: "0 \<le> n" using apos by (simp add: n_def)
  have nb: "n < 2 ^ 53" using bound by (simp add: n_def a_def)
  have n64: "n < 2 ^ 64" using nb by simp
  have prod: "uint (word_of_int a * batchSize p) = n"
    using uint_product [of a "batchSize p"] n0 n64 by (simp add: n_def)
  have "uint (batchSize p) * writeInterval p \<le> a * uint (batchSize p)"
  proof -
    have "writeInterval p \<le> a" using lt by (simp add: a_def)
    then have "writeInterval p * uint (batchSize p) \<le> a * uint (batchSize p)"
      by (rule mult_right_mono) simp
    then show ?thesis by (simp add: mult.commute)
  qed
  then have mi: "uint (batchSize p) * writeInterval p \<le> n" by (simp add: n_def)
  have cl: "uint (batchSize p) \<le> c" and cu: "c \<le> n"
    using ceiling_quotient_bounds [OF ipos n0 mi] by (simp_all add: c_def)
  have c64: "c < 2 ^ 64" using cu n64 by simp
  have ex: "(if word_of_int c > batchSize p then word_of_int c - batchSize p else 0) =
      word_of_int c - batchSize p"
    using word_excess [OF cl c64] .
  have cb: "ceilBatchSize (now - t + writeInterval p) (batchSize p) (writeInterval p) =
      word_of_int c"
    unfolding ceilBatchSize_def a_def [symmetric] prod c_def ..
  have "updateAndGetWriteBatchSize conn (onPacedWriteScheduled p t) now =
     (tokens p + (word_of_int c - batchSize p),
      p\<lparr>cachedBatchSize := word_of_int c,
        tokens := tokens p + (word_of_int c - batchSize p),
        scheduledWriteTime := None\<rparr>)"
  proof (cases "batchSize p < word_of_int c")
    case True
    with na ipos lt show ?thesis
      by (simp add: updateAndGetWriteBatchSize_def onPacedWriteScheduled_def Let_def cb)
  next
    case False
    with ex have "(word_of_int c :: u64) - batchSize p = 0" by simp
    with False na ipos lt show ?thesis
      by (simp add: updateAndGetWriteBatchSize_def onPacedWriteScheduled_def Let_def cb)
  qed
  then show ?thesis unfolding c_def n_def a_def .
qed

lemma drift_exact:
  assumes na: "\<not> appLimited p" and ipos: "0 < writeInterval p"
    and bound: "2 * writeInterval p * uint (batchSize p) < 2 ^ 53"
  shows "fst (updateAndGetWriteBatchSize conn (onPacedWriteScheduled p t) (t + writeInterval p)) =
     tokens p + batchSize p"
proof -
  have lt: "t < t + writeInterval p" using ipos by simp
  have b: "(t + writeInterval p - t + writeInterval p) * uint (batchSize p) < 2 ^ 53"
    using bound by simp
  have q: "real_of_int ((t + writeInterval p - t + writeInterval p) * uint (batchSize p))
      / real_of_int (writeInterval p) = real_of_int (2 * uint (batchSize p))"
    using ipos by simp
  have w: "(word_of_int (2 * uint (batchSize p)) :: u64) - batchSize p = batchSize p"
    by simp
  show ?thesis
    unfolding drift_general [OF na ipos lt b] q ceiling_of_int using w by simp
qed

lemma uint_pred:
  fixes w :: u64
  assumes "w \<noteq> 0"
  shows "uint (w - 1) = uint w - 1"
proof -
  have "0 < unat w" using assms by (simp add: unat_gt_0)
  then have i: "int (unat w - 1) = int (unat w) - 1" by simp
  have "uint (w - 1) = int (unat (w - 1))" by (rule uint_nat)
  also have "\<dots> = int (unat w - 1)" by (simp only: unat_minus_one [OF assms])
  also have "\<dots> = int (unat w) - 1" by (fact i)
  also have "\<dots> = uint w - 1" by (simp only: uint_nat)
  finally show ?thesis .
qed

text \<open>
  C8: for a pacer with pacing enabled (a write interval above zero, not app-limited),
  after onPacedWriteScheduled(t) a call of updateAndGetWriteBatchSize(now) with now
  after t computes adjusted = (now - t) + interval and cached = ceil(adjusted * burst /
  interval), adds the excess cached - burst to the token count and returns the tokens;
  the scheduled time is cleared. In particular, scheduling at t and observing at
  t + interval yields burst more tokens than before the call. The products stay in the
  range that a double holds exactly.
\<close>

theorem pacer_timer_drift:
  assumes "\<not> appLimited p" and "0 < writeInterval p"
  shows
  "(t < now \<and> (now - t + writeInterval p) * uint (batchSize p) < 2 ^ 53 \<longrightarrow>
      updateAndGetWriteBatchSize conn (onPacedWriteScheduled p t) now =
        (tokens p +
           (word_of_int \<lceil>real_of_int ((now - t + writeInterval p) * uint (batchSize p))
                           / real_of_int (writeInterval p)\<rceil> - batchSize p),
         p\<lparr>cachedBatchSize :=
              word_of_int \<lceil>real_of_int ((now - t + writeInterval p) * uint (batchSize p))
                             / real_of_int (writeInterval p)\<rceil>,
           tokens := tokens p +
             (word_of_int \<lceil>real_of_int ((now - t + writeInterval p) * uint (batchSize p))
                             / real_of_int (writeInterval p)\<rceil> - batchSize p),
           scheduledWriteTime := None\<rparr>)) \<and>
   (2 * writeInterval p * uint (batchSize p) < 2 ^ 53 \<longrightarrow>
      fst (updateAndGetWriteBatchSize conn (onPacedWriteScheduled p t) (t + writeInterval p)) =
        tokens p + batchSize p)"
proof (intro conjI impI)
  assume a: "t < now \<and> (now - t + writeInterval p) * uint (batchSize p) < 2 ^ 53"
  from a have lt: "t < now" ..
  from a have b: "(now - t + writeInterval p) * uint (batchSize p) < 2 ^ 53" ..
  show "updateAndGetWriteBatchSize conn (onPacedWriteScheduled p t) now =
        (tokens p +
           (word_of_int \<lceil>real_of_int ((now - t + writeInterval p) * uint (batchSize p))
                           / real_of_int (writeInterval p)\<rceil> - batchSize p),
         p\<lparr>cachedBatchSize :=
              word_of_int \<lceil>real_of_int ((now - t + writeInterval p) * uint (batchSize p))
                             / real_of_int (writeInterval p)\<rceil>,
           tokens := tokens p +
             (word_of_int \<lceil>real_of_int ((now - t + writeInterval p) * uint (batchSize p))
                             / real_of_int (writeInterval p)\<rceil> - batchSize p),
           scheduledWriteTime := None\<rparr>)"
    by (rule drift_general [OF assms lt b])
next
  assume "2 * writeInterval p * uint (batchSize p) < 2 ^ 53"
  then show "fst (updateAndGetWriteBatchSize conn (onPacedWriteScheduled p t) (t + writeInterval p)) =
        tokens p + batchSize p"
    by (rule drift_exact [OF assms])
qed

theorem pacer_timer_drift_witness:
  "fst (updateAndGetWriteBatchSize testConn (onPacedWriteScheduled testPacer 500) 10500) = 10 \<and>
   fst (updateAndGetWriteBatchSize testConn (onPacedWriteScheduled testPacer 500) 10501) = 11 \<and>
   fst (updateAndGetWriteBatchSize testConn
     (onPacedWriteScheduled
        (snd (updateAndGetWriteBatchSize testConn (onPacedWriteScheduled testPacer 500) 10500))
        10500) 20500) = 20"
  using pacer_timer_drift [where p = testPacer and t = 500 and now = 10501 and conn = testConn]
    pacer_timer_drift [where p = "testPacer\<lparr>tokens := 10\<rparr>" and t = 10500 and now = 20500 and conn = testConn]
  by (simp add: testPacer_def updateAndGetWriteBatchSize_def onPacedWriteScheduled_def
        ceilBatchSize_def Let_def)


lemma tokensSpecStep_nonneg: "0 \<le> n \<Longrightarrow> 0 \<le> tokensSpecStep s call n"
  by (cases s; cases call) (auto split: option.splits)

lemma tokensSpec_nonneg: "0 \<le> n \<Longrightarrow> 0 \<le> tokensSpec s calls n"
  by (induction calls arbitrary: s n) (simp_all add: tokensSpecStep_nonneg)

lemma uint_plus_in_range:
  fixes a b :: u64
  assumes "uint a + uint b < 2 ^ 64"
  shows "uint (a + b) = uint a + uint b"
proof -
  have "0 \<le> uint a + uint b" by simp
  then show ?thesis using assms by (simp add: uint_word_ariths)
qed

lemma sent_step: "uint (tokens (onPacketSent p)) = max 0 (uint (tokens p) - 1)"
proof (cases "tokens p = 0")
  case True
  then show ?thesis by (simp add: onPacketSent_def)
next
  case False
  then have "0 < uint (tokens p)" by (simp add: word_neq_0_conv word_less_def)
  with False show ?thesis by (simp add: onPacketSent_def uint_pred)
qed

lemma refresh_step:
  assumes "tokensSpecStep (p, conn) (RefreshPacingRate cwndBytes rtt) (uint (tokens p)) < 2 ^ 64"
  shows "uint (tokens (fst (refreshPacingRate conn p cwndBytes rtt))) =
     tokensSpecStep (p, conn) (RefreshPacingRate cwndBytes rtt) (uint (tokens p))"
proof (cases "rtt < pacingTimerTickInterval (transportSettings conn)")
  case True
  then show ?thesis by (simp add: refreshPacingRate_def Let_def)
next
  case False
  with assms have "uint (tokens p) +
      uint (burstSize (pacingRateCalculator p conn cwndBytes (minCwndInMss p) rtt)) < 2 ^ 64"
    by simp
  from uint_plus_in_range [OF this] False show ?thesis
    by (simp add: refreshPacingRate_def Let_def)
qed


lemma scheduled_same:
  "scheduledWriteTime p = Some scheduled \<Longrightarrow> onPacedWriteScheduled p scheduled = p"
  by (simp add: onPacedWriteScheduled_def)

lemma update_step:
  assumes rng: "driftInRange p (UpdateAndGetWriteBatchSize t)"
    and lim: "tokensSpecStep (p, conn) (UpdateAndGetWriteBatchSize t) (uint (tokens p)) < 2 ^ 64"
  shows "uint (tokens (snd (updateAndGetWriteBatchSize conn p t))) =
     tokensSpecStep (p, conn) (UpdateAndGetWriteBatchSize t) (uint (tokens p))"
proof (cases "appLimited p \<or> writeInterval p = 0")
  case True
  then show ?thesis by (auto simp: updateAndGetWriteBatchSize_def Let_def)
next
  case paced: False
  show ?thesis
  proof (cases "scheduledWriteTime p")
    case None
    with paced show ?thesis by (simp add: updateAndGetWriteBatchSize_def)
  next
    case (Some scheduled)
    show ?thesis
    proof (cases "scheduled \<ge> t")
      case True
      with paced Some show ?thesis by (simp add: updateAndGetWriteBatchSize_def)
    next
      case False
      then have lt: "scheduled < t" by simp
      from rng paced Some False have ipos: "0 < writeInterval p"
        and bound: "(t - scheduled + writeInterval p) * uint (batchSize p) < 2 ^ 53"
        by simp_all
      from paced have na: "\<not> appLimited p" by simp
      define n where "n = (t - scheduled + writeInterval p) * uint (batchSize p)"
      define c where "c = \<lceil>real_of_int n / real_of_int (writeInterval p)\<rceil>"
      have n0: "0 \<le> n" using lt ipos by (simp add: n_def)
      have "writeInterval p * uint (batchSize p) \<le> (t - scheduled + writeInterval p) * uint (batchSize p)"
        using lt by (intro mult_right_mono) simp_all
      then have mi: "uint (batchSize p) * writeInterval p \<le> n" by (simp add: n_def mult.commute)
      have cl: "uint (batchSize p) \<le> c" and cu: "c \<le> n"
        using ceiling_quotient_bounds [OF ipos n0 mi] by (simp_all add: c_def)
      have c64: "c < 2 ^ 64" using cu bound by (simp add: n_def)
      have c0: "0 \<le> c" using cl uint_ge_0 [of "batchSize p"] by linarith
      have uc: "uint (word_of_int c :: u64) = c" using c0 c64 by (simp add: uint_word_of_int)
      have ex: "uint ((word_of_int c :: u64) - batchSize p) = c - uint (batchSize p)"
        using uint_sub_lem [of "batchSize p" "word_of_int c"] cl uc by simp
      have spec: "tokensSpecStep (p, conn) (UpdateAndGetWriteBatchSize t) (uint (tokens p)) =
          uint (tokens p) + (c - uint (batchSize p))"
        using paced Some False cl by (simp add: c_def n_def)
      from drift_general [OF na ipos lt bound, of conn]
      have "tokens (snd (updateAndGetWriteBatchSize conn p t)) =
          tokens p + (word_of_int c - batchSize p)"
        by (simp add: scheduled_same [OF Some] c_def n_def)
      moreover have "uint (tokens p + ((word_of_int c :: u64) - batchSize p)) =
          uint (tokens p) + uint ((word_of_int c :: u64) - batchSize p)"
        using lim by (intro uint_plus_in_range) (simp only: ex spec)
      ultimately show ?thesis by (simp only: ex spec)
    qed
  qed
qed

lemma call_step:
  assumes "driftInRange p call"
    and "tokensSpecStep (p, conn) call (uint (tokens p)) < 2 ^ 64"
  shows "uint (tokens (fst (pacerCall (p, conn) call))) =
     tokensSpecStep (p, conn) call (uint (tokens p))"
proof (cases call)
  case OnPacketSent
  then show ?thesis by (simp add: sent_step)
next
  case OnPacketsLoss
  then show ?thesis by (simp add: onPacketsLoss_def)
next
  case (RefreshPacingRate cwndBytes rtt)
  with assms(2) show ?thesis by (simp only: pacerCall.simps refresh_step)
next
  case (UpdateAndGetWriteBatchSize t)
  with assms show ?thesis by (simp only: pacerCall.simps fst_conv update_step)
qed

lemma calls_spec:
  "callsInRange (p, conn) calls (uint (tokens p)) \<Longrightarrow>
   uint (tokens (fst (pacerCalls (p, conn) calls))) = tokensSpec (p, conn) calls (uint (tokens p))"
proof (induction calls arbitrary: p conn)
  case Nil
  then show ?case by (simp add: pacerCalls_def)
next
  case (Cons call calls)
  obtain p1 conn1 where s1: "pacerCall (p, conn) call = (p1, conn1)"
    by (cases "pacerCall (p, conn) call")
  from Cons.prems have rng: "driftInRange p call"
    and lim: "tokensSpecStep (p, conn) call (uint (tokens p)) < 2 ^ 64"
    and rest: "callsInRange (p1, conn1) calls (tokensSpecStep (p, conn) call (uint (tokens p)))"
    by (simp_all add: s1)
  from call_step [OF rng lim] s1
  have step: "uint (tokens p1) = tokensSpecStep (p, conn) call (uint (tokens p))" by simp
  from Cons.IH [of p1 conn1] rest step
  have "uint (tokens (fst (pacerCalls (p1, conn1) calls))) =
      tokensSpec (p1, conn1) calls (uint (tokens p1))" by simp
  then show ?case by (simp add: pacerCalls_def s1 step)
qed

text \<open>
  C9: the token count never goes negative. After any sequence of onPacketSent,
  onPacketsLoss, refreshPacingRate and updateAndGetWriteBatchSize calls that is in range
  (every drift compensation with a positive interval and a product below 2^53, and the
  count below 2^64), the 64-bit token count of the code is the count of the
  specification in unbounded integers, which is at least zero: no call has wrapped it
  around. updateAndGetWriteBatchSize returns that token count, or the batch size when
  pacing is off, or the write limit of the connection when the pacer is app-limited:
  never a negative value. onPacketSent on a token count of zero changes nothing, on any
  count it leaves the count less one and never below zero (no wrap-around), and
  onPacketsLoss sets the count to exactly zero.
\<close>

theorem pacer_tokens_never_negative:
  "(callsInRange (p, conn) calls (uint (tokens p)) \<longrightarrow>
      uint (tokens (fst (pacerCalls (p, conn) calls))) =
        tokensSpec (p, conn) calls (uint (tokens p)) \<and>
      0 \<le> tokensSpec (p, conn) calls (uint (tokens p))) \<and>
   fst (updateAndGetWriteBatchSize conn p t) =
     (if appLimited p then writeConnectionDataPacketsLimit (transportSettings conn)
      else if writeInterval p = 0 then batchSize p
      else tokens (snd (updateAndGetWriteBatchSize conn p t))) \<and>
   (tokens p = 0 \<longrightarrow> onPacketSent p = p) \<and>
   uint (tokens (onPacketSent p)) = max 0 (uint (tokens p) - 1) \<and>
   tokens (onPacketsLoss p) = 0"
proof (intro conjI impI)
  assume "callsInRange (p, conn) calls (uint (tokens p))"
  then show "uint (tokens (fst (pacerCalls (p, conn) calls))) =
      tokensSpec (p, conn) calls (uint (tokens p))"
    by (rule calls_spec)
  show "0 \<le> tokensSpec (p, conn) calls (uint (tokens p))"
    by (rule tokensSpec_nonneg) simp
next
  show "fst (updateAndGetWriteBatchSize conn p t) =
     (if appLimited p then writeConnectionDataPacketsLimit (transportSettings conn)
      else if writeInterval p = 0 then batchSize p
      else tokens (snd (updateAndGetWriteBatchSize conn p t)))"
    by (simp add: updateAndGetWriteBatchSize_def Let_def split: option.splits)
  show "onPacketSent p = p" if "tokens p = 0" using that by (simp add: onPacketSent_def)
  show "uint (tokens (onPacketSent p)) = max 0 (uint (tokens p) - 1)" by (rule sent_step)
  show "tokens (onPacketsLoss p) = 0" by (simp add: onPacketsLoss_def)
qed

theorem pacer_tokens_never_negative_witness:
  "tokens (fst (pacerCalls (onPacedWriteScheduled testPacer 500, testConn)
     [OnPacketSent, UpdateAndGetWriteBatchSize 10500, OnPacketSent,
      RefreshPacingRate 100 100000])) = 19 \<and>
   tokensSpec (onPacedWriteScheduled testPacer 500, testConn)
     [OnPacketSent, UpdateAndGetWriteBatchSize 10500, OnPacketSent,
      RefreshPacingRate 100 100000] 0 = 19 \<and>
   tokens (fst (pacerCalls (onPacedWriteScheduled testPacer 500, testConn)
     [OnPacketSent, UpdateAndGetWriteBatchSize 10500, OnPacketSent,
      RefreshPacingRate 100 100000, OnPacketsLoss, OnPacketSent])) = 0 \<and>
   onPacketSent (testPacer\<lparr>tokens := 0\<rparr>) = testPacer\<lparr>tokens := 0\<rparr> \<and>
   tokens (onPacketSent (testPacer\<lparr>tokens := 3\<rparr>)) = 2"
proof -
  let ?p = "onPacedWriteScheduled testPacer 500"
  let ?calls = "[OnPacketSent, UpdateAndGetWriteBatchSize 10500, OnPacketSent,
      RefreshPacingRate 100 100000]"
  have t0: "uint (tokens ?p) = 0" by (simp add: onPacedWriteScheduled_def testPacer_def)
  have rng: "callsInRange (?p, testConn) ?calls (uint (tokens ?p))"
    by (simp add: testPacer_def testConn_def onPacedWriteScheduled_def onPacketSent_def
          refreshPacingRate_def updateAndGetWriteBatchSize_def ceilBatchSize_def Let_def)
  have spec: "tokensSpec (?p, testConn) ?calls 0 = 19"
    by (simp add: testPacer_def testConn_def onPacedWriteScheduled_def onPacketSent_def
          refreshPacingRate_def updateAndGetWriteBatchSize_def ceilBatchSize_def Let_def)
  from pacer_tokens_never_negative [where p = ?p and conn = testConn and calls = ?calls] rng
  have "uint (tokens (fst (pacerCalls (?p, testConn) ?calls))) =
      tokensSpec (?p, testConn) ?calls (uint (tokens ?p))"
    by blast
  with spec t0 have "uint (tokens (fst (pacerCalls (?p, testConn) ?calls))) = uint (19 :: u64)"
    by simp
  then have a: "tokens (fst (pacerCalls (?p, testConn) ?calls)) = 19"
    by (simp only: word_uint_eq_iff)
  have b: "tokens (fst (pacerCalls (?p, testConn) (?calls @ [OnPacketsLoss, OnPacketSent]))) = 0"
    by (simp add: pacerCalls_def testPacer_def testConn_def onPacedWriteScheduled_def
          onPacketSent_def onPacketsLoss_def refreshPacingRate_def
          updateAndGetWriteBatchSize_def ceilBatchSize_def Let_def)
  have c: "onPacketSent (testPacer\<lparr>tokens := 0\<rparr>) = testPacer\<lparr>tokens := 0\<rparr>"
    using pacer_tokens_never_negative [where p = "testPacer\<lparr>tokens := 0\<rparr>"] by simp
  have d: "tokens (onPacketSent (testPacer\<lparr>tokens := 3\<rparr>)) = 2"
    by (simp add: onPacketSent_def)
  from a b c d spec show ?thesis by simp
qed

section \<open>Properties of the packet builder\<close>

lemma encode_padding: "encodeQuicInteger FrameType_PADDING = [0]"
  by (simp add: encodeQuicInteger_def FrameType_PADDING_def bigEndianBytes_def)

lemma write_padding:
  "write_b b FrameType_PADDING = b\<lparr>body_b := body_b b @ [0], remainingBytes := remainingBytes b - 1\<rparr>"
  by (simp add: write_b_def encode_padding)

lemma padding_go:
  assumes "bl + e + cipherOverhead b < m \<and> frames (packet_b b) \<noteq> [] \<and>
     unat (remainingBytes b) > kMaxPacketLenSize c"
  shows "buildPacket_padding c m bl (e, b) =
     buildPacket_padding c m bl (e + 1, write_b b FrameType_PADDING)"
  by (subst buildPacket_padding.simps) (rule if_P [OF assms])

lemma padding_stop:
  assumes "\<not> (bl + e + cipherOverhead b < m \<and> frames (packet_b b) \<noteq> [] \<and>
     unat (remainingBytes b) > kMaxPacketLenSize c)"
  shows "buildPacket_padding c m bl (e, b) = (e, b)"
  by (subst buildPacket_padding.simps) (rule if_not_P [OF assms])

lemma padding_result:
  "buildPacket_padding c m bl (e, b) = (e', b') \<Longrightarrow>
     e \<le> e' \<and> body_b b' = body_b b @ replicate (e' - e) 0 \<and> packet_b b' = packet_b b \<and>
     header_b b' = header_b b \<and> cipherOverhead b' = cipherOverhead b \<and>
     packetNumberEncoding b' = packetNumberEncoding b \<and>
     (e < e' \<longrightarrow> frames (packet_b b) \<noteq> [] \<and> kMaxPacketLenSize c < unat (remainingBytes b))"
proof (induction c m bl "(e, b)" arbitrary: e b rule: buildPacket_padding.induct)
  case (1 c minBody bodyLength extraDataWritten b)
  show ?case
  proof (cases "bodyLength + extraDataWritten + cipherOverhead b < minBody \<and>
         frames (packet_b b) \<noteq> [] \<and> unat (remainingBytes b) > kMaxPacketLenSize c")
    case True
    then have rec: "buildPacket_padding c minBody bodyLength
        (extraDataWritten + 1, write_b b FrameType_PADDING) = (e', b')"
      using "1.prems" padding_go [OF True] by simp
    from "1.hyps" [OF True rec]
    have ih: "extraDataWritten + 1 \<le> e'"
      "body_b b' = body_b (write_b b FrameType_PADDING) @ replicate (e' - (extraDataWritten + 1)) 0"
      "packet_b b' = packet_b (write_b b FrameType_PADDING)"
      "header_b b' = header_b (write_b b FrameType_PADDING)"
      "cipherOverhead b' = cipherOverhead (write_b b FrameType_PADDING)"
      "packetNumberEncoding b' = packetNumberEncoding (write_b b FrameType_PADDING)"
      by simp_all
    have "replicate (e' - extraDataWritten) (0 :: u8) =
        0 # replicate (e' - (extraDataWritten + 1)) 0"
      using ih(1) by (cases "e' - extraDataWritten") simp_all
    with ih True show ?thesis by (simp add: write_padding)
  next
    case False
    have "(e', b') = (extraDataWritten, b)"
      using "1.prems" padding_stop [OF False] by simp
    then show ?thesis by simp
  qed
qed

lemma unat_pred32:
  fixes r :: u32
  assumes "k < unat r"
  shows "unat (r - 1) = unat r - 1"
proof -
  have "r \<noteq> 0" using assms by (auto simp: unat_gt_0 [symmetric])
  then show ?thesis by (rule unat_minus_one)
qed

lemma padding_completes:
  "frames (packet_b b) \<noteq> [] \<Longrightarrow>
   kMaxPacketLenSize c + (m - (bl + e + cipherOverhead b)) \<le> unat (remainingBytes b) \<Longrightarrow>
   m \<le> bl + fst (buildPacket_padding c m bl (e, b)) + cipherOverhead b"
proof (induction c m bl "(e, b)" arbitrary: e b rule: buildPacket_padding.induct)
  case (1 c minBody bodyLength extraDataWritten b)
  show ?case
  proof (cases "bodyLength + extraDataWritten + cipherOverhead b < minBody \<and>
         frames (packet_b b) \<noteq> [] \<and> unat (remainingBytes b) > kMaxPacketLenSize c")
    case True
    have fr: "frames (packet_b (write_b b FrameType_PADDING)) \<noteq> []"
      using "1.prems"(1) by (simp add: write_padding)
    have r: "unat (remainingBytes (write_b b FrameType_PADDING)) = unat (remainingBytes b) - 1"
      using True unat_pred32 [of "kMaxPacketLenSize c" "remainingBytes b"]
      by (simp add: write_padding)
    have budget: "kMaxPacketLenSize c +
        (minBody - (bodyLength + (extraDataWritten + 1) +
           cipherOverhead (write_b b FrameType_PADDING)))
        \<le> unat (remainingBytes (write_b b FrameType_PADDING))"
      using "1.prems"(2) True r by (simp add: write_padding)
    from "1.hyps" [OF True fr budget] show ?thesis
      by (simp add: padding_go [OF True] write_padding)
  next
    case False
    have e: "buildPacket_padding c minBody bodyLength (extraDataWritten, b) =
        (extraDataWritten, b)"
      by (rule padding_stop [OF False])
    from False "1.prems" have "minBody \<le> bodyLength + extraDataWritten + cipherOverhead b"
      by auto
    with e show ?thesis by simp
  qed
qed

lemma buildPacket_body:
  "snd (snd (buildPacket c b)) =
     body_b (snd (buildPacket_padding c (minBodySize c b) (length (body_b b)) (0, b)))"
  by (simp add: buildPacket_def Let_def appendBytes_header_def
        split: PacketHeader.splits)

lemma padding_count:
  "fst (buildPacket_padding c m bl (e, b)) =
     e + (if frames (packet_b b) = [] then 0
          else min (m - (bl + e + cipherOverhead b))
                   (unat (remainingBytes b) - kMaxPacketLenSize c))"
proof (induction c m bl "(e, b)" arbitrary: e b rule: buildPacket_padding.induct)
  case (1 c minBody bodyLength extraDataWritten b)
  show ?case
  proof (cases "bodyLength + extraDataWritten + cipherOverhead b < minBody \<and>
         frames (packet_b b) \<noteq> [] \<and> unat (remainingBytes b) > kMaxPacketLenSize c")
    case True
    have r: "unat (remainingBytes (write_b b FrameType_PADDING)) = unat (remainingBytes b) - 1"
      using True unat_pred32 [of "kMaxPacketLenSize c" "remainingBytes b"]
      by (simp add: write_padding)
    have fr: "frames (packet_b (write_b b FrameType_PADDING)) = frames (packet_b b)"
      by (simp add: write_padding)
    have oh: "cipherOverhead (write_b b FrameType_PADDING) = cipherOverhead b"
      by (simp add: write_padding)
    have "fst (buildPacket_padding c minBody bodyLength (extraDataWritten, b)) =
        fst (buildPacket_padding c minBody bodyLength
               (extraDataWritten + 1, write_b b FrameType_PADDING))"
      by (simp only: padding_go [OF True])
    also have "\<dots> = extraDataWritten + 1 +
        min (minBody - (bodyLength + (extraDataWritten + 1) + cipherOverhead b))
            (unat (remainingBytes b) - 1 - kMaxPacketLenSize c)"
      using "1.hyps" [OF True] True by (simp only: r fr oh) simp
    also have "\<dots> = extraDataWritten +
        min (minBody - (bodyLength + extraDataWritten + cipherOverhead b))
            (unat (remainingBytes b) - kMaxPacketLenSize c)"
      using True by arith
    finally show ?thesis using True by simp
  next
    case False
    have "fst (buildPacket_padding c minBody bodyLength (extraDataWritten, b)) = extraDataWritten"
      by (simp add: padding_stop [OF False])
    moreover from False have "frames (packet_b b) = [] \<or>
        min (minBody - (bodyLength + extraDataWritten + cipherOverhead b))
            (unat (remainingBytes b) - kMaxPacketLenSize c) = 0"
      by (auto simp: min_def)
    ultimately show ?thesis by auto
  qed
qed

text \<open>
  C5, as the code has it: the body that buildPacket returns is the body appended before,
  followed by exactly k single-byte PADDING frames (0x00), where k is zero when the
  packet has no frame and otherwise the smaller of the bytes missing for the body and
  the cipher overhead to reach minBodySize and of the remaining budget above the
  length-field reservation. So padding is added only while the packet has at least one
  frame, the remaining budget exceeds the length-field reservation (the reservation and
  the k bytes fit the budget) and minBodySize is not passed. For a packet whose appended
  body length plus cipher overhead is less than 4 + packet-number-length (of 1 to 4
  bytes), if the packet has at least one frame and the remaining budget exceeds the
  length-field reservation by at least the number of bytes missing up to minBodySize,
  then the finalized body plus the cipher overhead reaches minBodySize, and with a
  sample of sixteen bytes the finalized body length is at least
  4 + packet-number-length.
\<close>

theorem buildPacket_padding_body:
  fixes c :: BuilderConstants and b :: RegularQuicPacketBuilder
  defines "body' \<equiv> snd (snd (buildPacket c b))"
  defines "pnLen \<equiv> length_enc (packetNumberEncoding b)"
  defines "k \<equiv> (if frames (packet_b b) = [] then 0
                 else min (minBodySize c b - (length (body_b b) + cipherOverhead b))
                          (unat (remainingBytes b) - kMaxPacketLenSize c))"
  shows
  "body' = body_b b @ replicate k 0 \<and>
   (0 < k \<longrightarrow> frames (packet_b b) \<noteq> [] \<and>
      kMaxPacketLenSize c + k \<le> unat (remainingBytes b) \<and>
      length (body_b b) + k + cipherOverhead b \<le> minBodySize c b) \<and>
   (sizeofSample c = 16 \<and> 1 \<le> pnLen \<and> pnLen \<le> 4 \<and>
    length (body_b b) + cipherOverhead b < 4 + pnLen \<and>
    frames (packet_b b) \<noteq> [] \<and>
    kMaxPacketLenSize c + (minBodySize c b - (length (body_b b) + cipherOverhead b))
      \<le> unat (remainingBytes b) \<longrightarrow>
    minBodySize c b \<le> length body' + cipherOverhead b \<and> 4 + pnLen \<le> length body')"
proof (intro conjI impI)
  obtain e' b' where r:
    "buildPacket_padding c (minBodySize c b) (length (body_b b)) (0, b) = (e', b')"
    by (cases "buildPacket_padding c (minBodySize c b) (length (body_b b)) (0, b)")
  have e': "e' = k"
    using padding_count [of c "minBodySize c b" "length (body_b b)" 0 b]
    by (simp add: r k_def)
  from padding_result [OF r] have body: "body_b b' = body_b b @ replicate e' 0" by simp
  show b: "body' = body_b b @ replicate k 0"
    unfolding body'_def buildPacket_body r using body e' by simp
  {
    assume pos: "0 < k"
    then show fr: "frames (packet_b b) \<noteq> []" by (auto simp: k_def split: if_splits)
    then have km: "k = min (minBodySize c b - (length (body_b b) + cipherOverhead b))
                          (unat (remainingBytes b) - kMaxPacketLenSize c)"
      by (simp add: k_def)
    from pos km show "kMaxPacketLenSize c + k \<le> unat (remainingBytes b)" by arith
    from pos km show "length (body_b b) + k + cipherOverhead b \<le> minBodySize c b" by arith
  }
  {
    assume a: "sizeofSample c = 16 \<and> 1 \<le> pnLen \<and> pnLen \<le> 4 \<and>
      length (body_b b) + cipherOverhead b < 4 + pnLen \<and>
      frames (packet_b b) \<noteq> [] \<and>
      kMaxPacketLenSize c + (minBodySize c b - (length (body_b b) + cipherOverhead b))
        \<le> unat (remainingBytes b)"
    have len: "length body' = length (body_b b) + k" using b by simp
    have mb: "minBodySize c b = 20 - pnLen"
      using a by (simp add: minBodySize_def pnLen_def kMaxPacketNumEncodingSize_def)
    from a have "k = min (minBodySize c b - (length (body_b b) + cipherOverhead b))
                          (unat (remainingBytes b) - kMaxPacketLenSize c)"
      by (simp add: k_def)
    with a have kk: "k = minBodySize c b - (length (body_b b) + cipherOverhead b)"
      by arith
    show "minBodySize c b \<le> length body' + cipherOverhead b" using len kk by simp
    show "4 + pnLen \<le> length body'" using len kk mb a by arith
  }
qed

theorem buildPacket_padding_body_witness:
  "snd (snd (buildPacket testConstants
      (appendFrame (write_b testBuilder 1) (QuicSimpleFrame PingFrame)))) =
     1 # replicate 18 0 \<and>
   4 + length_enc (packetNumberEncoding
         (appendFrame (write_b testBuilder 1) (QuicSimpleFrame PingFrame)))
     \<le> length (snd (snd (buildPacket testConstants
      (appendFrame (write_b testBuilder 1) (QuicSimpleFrame PingFrame)))))"
proof -
  let ?b = "appendFrame (write_b testBuilder 1) (QuicSimpleFrame PingFrame)"
  have v: "snd (snd (buildPacket testConstants ?b)) = 1 # replicate 18 0"
    by code_simp
  have hyp: "sizeofSample testConstants = 16 \<and> 1 \<le> length_enc (packetNumberEncoding ?b) \<and>
    length_enc (packetNumberEncoding ?b) \<le> 4 \<and>
    length (body_b ?b) + cipherOverhead ?b < 4 + length_enc (packetNumberEncoding ?b) \<and>
    frames (packet_b ?b) \<noteq> [] \<and>
    kMaxPacketLenSize testConstants +
      (minBodySize testConstants ?b - (length (body_b ?b) + cipherOverhead ?b))
      \<le> unat (remainingBytes ?b)"
    by code_simp
  from buildPacket_padding_body [where c = testConstants and b = ?b] hyp
  have "4 + length_enc (packetNumberEncoding ?b) \<le>
      length (snd (snd (buildPacket testConstants ?b)))"
    by blast
  with v show ?thesis by blast
qed

text \<open>
  A builder with a one-byte body and a budget of three bytes left pads one byte and
  stops at the length-field reservation; a builder with a one-byte body and no frame
  recorded pads nothing. Both bodies are shorter than 4 + 1.
\<close>

theorem buildPacket_padding_body_counterexample:
  "snd (snd (buildPacket testConstants
      (appendFrame (write_b (testBuilder\<lparr>remainingBytes := 4\<rparr>) 1)
         (QuicSimpleFrame PingFrame)))) = [1, 0] \<and>
   snd (snd (buildPacket testConstants (write_b testBuilder 1))) = [1] \<and>
   length_enc (packetNumberEncoding testBuilder) = 1 \<and>
   cipherOverhead testBuilder = 0"
  by code_simp

section \<open>Properties of the packet rebuilder\<close>

lemma rebuildFrames_append:
  "rebuildFrames w conn pkt (pre @ post) st =
     (case rebuildFrames w conn pkt pre st of
        Inl e \<Rightarrow> Inl e
      | Inr (True, st1) \<Rightarrow> Inr (True, st1)
      | Inr (False, st1) \<Rightarrow> rebuildFrames w conn pkt post st1)"
  by (induction pre arbitrary: st) (auto split: sum.splits)

lemma cloneRetransmissionBuffer_gone:
  assumes "retransmissionBuffer stream off = None \<or>
     (\<exists>buf. retransmissionBuffer stream off = Some buf \<and>
        \<not> streamFrameMatchesRetransmitBuffer w stream sid off len fin buf)"
  shows "cloneRetransmissionBuffer w sid off len fin stream = None"
  using assms by (auto simp: cloneRetransmissionBuffer_def)

lemma rebuildFrame_stream_gone:
  assumes "getStream conn sid = Some stream" and "retransmittable w stream"
    and "cloneRetransmissionBuffer w sid off len fin stream = None"
    and "fst (writeStreamFrameHeader w (builder st) sid off 0 0 fin) \<noteq> Some len"
  shows "rebuildFrame w conn pkt (WriteStreamFrame sid off len fin) st =
     Inr (st\<lparr>builder := snd (writeStreamFrameHeader w (builder st) sid off 0 0 fin),
              writeSuccess := False\<rparr>)"
  using assms by (auto simp: Let_def split: prod.splits)

text \<open>
  C1, as the code has it: for an outstanding packet with a STREAM frame whose stream
  still exists and is retransmittable, if the frame's offset is no longer in the
  stream's retransmission buffer (or the stored buffer no longer matches the frame),
  cloneRetransmissionBuffer returns no data and, once the frames before it are rebuilt,
  writeStreamFrameHeader is called for a buffer of length zero. Unless that call reports
  exactly the length of the frame, the frame leaves writeSuccess false:
  rebuildFromPacket returns no clone event with the builder as writeStreamFrameHeader
  left it, the frames after it are not rebuilt, and connection and packet are unchanged.
  This is so for every frame of a length other than zero, provided
  writeStreamFrameHeader reports no length above that of the buffer it is given.
\<close>

theorem streamFrame_without_data_aborts:
  assumes "getStream conn sid = Some stream" and "retransmittable w stream"
    and "retransmissionBuffer stream off = None \<or>
     (\<exists>buf. retransmissionBuffer stream off = Some buf \<and>
        \<not> streamFrameMatchesRetransmitBuffer w stream sid off len fin buf)"
    and "frames (packet pkt) = pre @ WriteStreamFrame sid off len fin # post"
    and "rebuildFrames w conn pkt pre (initialRebuildState b) = Inr (False, st)"
  shows
  "(fst (writeStreamFrameHeader w (builder st) sid off 0 0 fin) \<noteq> Some len \<longrightarrow>
      rebuildFromPacket w conn b pkt =
        Inr (None, snd (writeStreamFrameHeader w (builder st) sid off 0 0 fin), conn, pkt)) \<and>
   (len \<noteq> 0 \<and>
    (\<forall>b n d. fst (writeStreamFrameHeader w b sid off n n fin) = Some d \<longrightarrow> d \<le> n) \<longrightarrow>
      rebuildFromPacket w conn b pkt =
        Inr (None, snd (writeStreamFrameHeader w (builder st) sid off 0 0 fin), conn, pkt))"
proof -
  have gone: "cloneRetransmissionBuffer w sid off len fin stream = None"
    using assms(3) by (rule cloneRetransmissionBuffer_gone)
  have abort: "rebuildFromPacket w conn b pkt =
      Inr (None, snd (writeStreamFrameHeader w (builder st) sid off 0 0 fin), conn, pkt)"
    if hdr: "fst (writeStreamFrameHeader w (builder st) sid off 0 0 fin) \<noteq> Some len"
  proof -
    have step: "rebuildFrame w conn pkt (WriteStreamFrame sid off len fin) st =
       Inr (st\<lparr>builder := snd (writeStreamFrameHeader w (builder st) sid off 0 0 fin),
                writeSuccess := False\<rparr>)"
      using assms(1,2) gone hdr by (rule rebuildFrame_stream_gone)
    have "rebuildFrames w conn pkt (frames (packet pkt)) (initialRebuildState b) =
       Inr (True, st\<lparr>builder := snd (writeStreamFrameHeader w (builder st) sid off 0 0 fin),
                writeSuccess := False\<rparr>)"
      unfolding assms(4) rebuildFrames_append assms(5)
      by (simp add: step del: rebuildFrame.simps)
    then show ?thesis by (simp add: rebuildFromPacket_def)
  qed
  have hdr: "fst (writeStreamFrameHeader w (builder st) sid off 0 0 fin) \<noteq> Some len"
    if nz: "len \<noteq> 0"
      and le: "\<forall>b n d. fst (writeStreamFrameHeader w b sid off n n fin) = Some d \<longrightarrow> d \<le> n"
  proof
    assume "fst (writeStreamFrameHeader w (builder st) sid off 0 0 fin) = Some len"
    with le have "len \<le> 0" by blast
    with nz show False by simp
  qed
  from abort hdr show ?thesis by blast
qed

theorem streamFrame_without_data_aborts_witness:
  "rebuildFromPacket testCodec testConnStream testBuilder testPacket =
     Inr (None, testBuilder, testConnStream, testPacket)"
proof -
  have 1: "getStream testConnStream 4 = Some \<lparr>id_stream = 4, retransmissionBuffer = Map.empty\<rparr>"
    by (simp add: getStream_def testConnStream_def)
  have 2: "retransmittable testCodec \<lparr>id_stream = 4, retransmissionBuffer = Map.empty\<rparr>"
    by (simp add: testCodec_def)
  have 3: "retransmissionBuffer \<lparr>id_stream = 4, retransmissionBuffer = Map.empty\<rparr> 0 = None \<or>
     (\<exists>buf. retransmissionBuffer \<lparr>id_stream = 4, retransmissionBuffer = Map.empty\<rparr> 0 = Some buf \<and>
        \<not> streamFrameMatchesRetransmitBuffer testCodec
             \<lparr>id_stream = 4, retransmissionBuffer = Map.empty\<rparr> 4 0 5 False buf)"
    by simp
  have 4: "(5 :: u64) \<noteq> 0" by simp
  have 5: "\<forall>b n d. fst (writeStreamFrameHeader testCodec b 4 0 n n False) = Some d \<longrightarrow> d \<le> n"
    by (simp add: testCodec_def)
  have 6: "frames (packet testPacket) = [] @ WriteStreamFrame 4 0 5 False # [QuicSimpleFrame PingFrame]"
    by (simp add: testPacket_def)
  have 7: "rebuildFrames testCodec testConnStream testPacket [] (initialRebuildState testBuilder) =
     Inr (False, initialRebuildState testBuilder)"
    by simp
  have 8: "fst (writeStreamFrameHeader testCodec (builder (initialRebuildState testBuilder)) 4 0 0 0 False)
      \<noteq> Some 5"
    by (simp add: testCodec_def initialRebuildState_def)
  have 9: "snd (writeStreamFrameHeader testCodec (builder (initialRebuildState testBuilder)) 4 0 0 0 False)
      = testBuilder"
    by (simp add: testCodec_def initialRebuildState_def)
  from streamFrame_without_data_aborts [OF 1 2 3 6 7] 4 5 8
  have "rebuildFromPacket testCodec testConnStream testBuilder testPacket =
      Inr (None, snd (writeStreamFrameHeader testCodec
        (builder (initialRebuildState testBuilder)) 4 0 0 0 False), testConnStream, testPacket)"
    by blast
  with 9 show ?thesis by simp
qed

text \<open>
  The packet with a STREAM frame of five bytes on stream 4, whose data are gone, and a
  PING frame gives no clone event and rebuilds nothing, where the packet with the PING
  frame alone gives the event 7 and rebuilds the PING frame. When the STREAM frame has
  the FIN, its header is written for an empty frame before the rebuild is given up.
\<close>

theorem streamFrame_without_data_aborts_counterexample:
  "rebuildFromPacket testCodec testConnStream testBuilder testPacket =
     Inr (None, testBuilder, testConnStream, testPacket) \<and>
   rebuildFromPacket testCodec testConnStream testBuilder testPacketPing =
     Inr (Some 7,
          appendFrame (write_b testBuilder 1) (QuicSimpleFrame PingFrame),
          testConnStream\<lparr>outstandingPacketEvents := {7}, outstandingClonedPacketsCount := 1\<rparr>,
          testPacketPing\<lparr>associatedEvent := Some 7\<rparr>) \<and>
   rebuildFromPacket testCodec testConnStream testBuilder testPacketFin =
     Inr (None,
          appendFrame (write_b testBuilder 8) (WriteStreamFrame 4 0 0 True),
          testConnStream, testPacketFin)"
  by (simp add: rebuildFromPacket_def initialRebuildState_def testPacket_def testPacketPing_def
        testPacketFin_def testConnStream_def testConn_def testCodec_def testBuilder_def
        getStream_def cloneRetransmissionBuffer_def cloneOutstandingPacket_def
        appendFrame_def write_b_def encodeQuicInteger_def bigEndianBytes_def Let_def)

lemma cloneOutstandingPacket_event:
  assumes "clonable conn pkt"
  shows "cloneOutstandingPacket conn pkt =
     (packetEvent pkt,
      conn\<lparr>outstandingPacketEvents := insert (packetEvent pkt) (outstandingPacketEvents conn),
           outstandingClonedPacketsCount :=
             (if associatedEvent pkt = None then outstandingClonedPacketsCount conn + 1
              else outstandingClonedPacketsCount conn)\<rparr>,
      pkt\<lparr>associatedEvent := Some (packetEvent pkt)\<rparr>)"
proof (cases "associatedEvent pkt")
  case None
  then show ?thesis by (simp add: cloneOutstandingPacket_def packetEvent_def Let_def)
next
  case (Some event)
  with assms have "insert event (outstandingPacketEvents conn) = outstandingPacketEvents conn"
    by (auto simp: clonable_def)
  with Some show ?thesis by (simp add: cloneOutstandingPacket_def packetEvent_def)
qed

lemma rebuildFromPacket_cases:
  assumes "clonable conn pkt"
    and "rebuildFrames w conn pkt (frames (packet pkt)) (initialRebuildState b) = Inr (aborted, st)"
  shows "rebuildFromPacket w conn b pkt =
     (if aborted \<or> \<not> notPureAck st \<or>
         (shouldWriteWindowUpdate st \<and> \<not> windowUpdateWritten st \<and> \<not> writeSuccess st)
      then Inr (None, builder st, conn, pkt)
      else Inr (Some (packetEvent pkt), builder st,
             conn\<lparr>outstandingPacketEvents :=
                    insert (packetEvent pkt) (outstandingPacketEvents conn),
                  outstandingClonedPacketsCount :=
                    (if associatedEvent pkt = None then outstandingClonedPacketsCount conn + 1
                     else outstandingClonedPacketsCount conn)\<rparr>,
             pkt\<lparr>associatedEvent := Some (packetEvent pkt)\<rparr>))"
  using assms(2) by (cases aborted) (simp_all add: rebuildFromPacket_def cloneOutstandingPacket_event [OF assms(1)])

lemma rebuildFromPacket_step:
  assumes "clonable conn pkt"
    and "rebuildFromPacket w conn b pkt = Inr (ev, b1, conn1, pkt1)"
  shows "(ev = None \<and> conn1 = conn \<and> pkt1 = pkt) \<or>
     (ev = Some (packetEvent pkt) \<and>
      conn1 = conn\<lparr>outstandingPacketEvents :=
                    insert (packetEvent pkt) (outstandingPacketEvents conn),
                  outstandingClonedPacketsCount :=
                    (if associatedEvent pkt = None then outstandingClonedPacketsCount conn + 1
                     else outstandingClonedPacketsCount conn)\<rparr> \<and>
      pkt1 = pkt\<lparr>associatedEvent := Some (packetEvent pkt)\<rparr>)"
proof (cases "rebuildFrames w conn pkt (frames (packet pkt)) (initialRebuildState b)")
  case (Inl e)
  with assms(2) show ?thesis by (simp add: rebuildFromPacket_def)
next
  case (Inr r)
  obtain aborted st where r: "r = (aborted, st)" by (cases r)
  from rebuildFromPacket_cases [OF assms(1) Inr [unfolded r]] assms(2)
  show ?thesis by (auto split: if_splits)
qed

lemma rebuildRepeatedly_cloned:
  assumes "associatedEvent pkt = Some event" and "event \<in> outstandingPacketEvents conn"
    and "rebuildRepeatedly w conn pkt bs = Inr (evs, conn1, pkt1)"
  shows "conn1 = conn \<and> pkt1 = pkt \<and> set evs \<subseteq> {None, Some event}"
  using assms
proof (induction bs arbitrary: evs)
  case Nil
  then show ?case by simp
next
  case (Cons b bs)
  from Cons.prems(3) obtain ev b1 conn2 pkt2 evs'
    where first: "rebuildFromPacket w conn b pkt = Inr (ev, b1, conn2, pkt2)"
      and rest: "rebuildRepeatedly w conn2 pkt2 bs = Inr (evs', conn1, pkt1)"
      and evs: "evs = ev # evs'"
    by (auto split: sum.splits prod.splits)
  have c: "clonable conn pkt" using Cons.prems(1,2) by (simp add: clonable_def)
  have pe: "packetEvent pkt = event" using Cons.prems(1) by (simp add: packetEvent_def)
  have ins: "insert event (outstandingPacketEvents conn) = outstandingPacketEvents conn"
    using Cons.prems(2) by auto
  from rebuildFromPacket_step [OF c first] pe ins Cons.prems(1)
  have same: "conn2 = conn \<and> pkt2 = pkt" and ev: "ev = None \<or> ev = Some event"
    by auto
  from Cons.IH [OF Cons.prems(1,2)] rest same
  have "conn1 = conn \<and> pkt1 = pkt \<and> set evs' \<subseteq> {None, Some event}" by simp
  with ev evs show ?case by auto
qed

lemma rebuildRepeatedly_successful:
  assumes "clonable conn pkt"
    and "rebuildRepeatedly w conn pkt bs = Inr (evs, conn1, pkt1)"
    and "bs \<noteq> []" and "None \<notin> set evs"
  shows "outstandingPacketEvents conn1 = insert (packetEvent pkt) (outstandingPacketEvents conn) \<and>
     set evs = {Some (packetEvent pkt)} \<and>
     associatedEvent pkt1 = Some (packetEvent pkt) \<and>
     outstandingClonedPacketsCount conn1 =
       (if associatedEvent pkt = None then outstandingClonedPacketsCount conn + 1
        else outstandingClonedPacketsCount conn)"
proof -
  from assms(3) obtain b bs' where bs: "bs = b # bs'" by (cases bs) auto
  from assms(2) [unfolded bs] obtain ev b1 conn2 pkt2 evs'
    where first: "rebuildFromPacket w conn b pkt = Inr (ev, b1, conn2, pkt2)"
      and rest: "rebuildRepeatedly w conn2 pkt2 bs' = Inr (evs', conn1, pkt1)"
      and evs: "evs = ev # evs'"
    by (auto split: sum.splits prod.splits)
  from assms(4) evs have "ev \<noteq> None" by (cases ev) auto
  with rebuildFromPacket_step [OF assms(1) first]
  have ev: "ev = Some (packetEvent pkt)"
    and conn2: "conn2 = conn\<lparr>outstandingPacketEvents :=
                    insert (packetEvent pkt) (outstandingPacketEvents conn),
                  outstandingClonedPacketsCount :=
                    (if associatedEvent pkt = None then outstandingClonedPacketsCount conn + 1
                     else outstandingClonedPacketsCount conn)\<rparr>"
    and pkt2: "pkt2 = pkt\<lparr>associatedEvent := Some (packetEvent pkt)\<rparr>"
    by auto
  have a: "associatedEvent pkt2 = Some (packetEvent pkt)" using pkt2 by simp
  have m: "packetEvent pkt \<in> outstandingPacketEvents conn2" using conn2 by simp
  from rebuildRepeatedly_cloned [OF a m rest]
  have "conn1 = conn2" and "pkt1 = pkt2" and "set evs' \<subseteq> {None, Some (packetEvent pkt)}"
    by simp_all
  moreover from assms(4) evs have "None \<notin> set evs'" by simp
  ultimately show ?thesis using ev evs conn2 pkt2 by auto
qed

lemma rebuildFrame_reemit:
  assumes "rebuildFrame w conn pkt frame st = Inr st1"
  shows "writeSuccess st1 = (reemit w conn frame (builder st) \<noteq> Failed) \<and>
     notPureAck st1 = (notPureAck st \<or> reemit w conn frame (builder st) = Cloned) \<and>
     builder st1 = builderAfter w conn pkt frame (builder st)"
  using assms
  by (cases frame)
     (auto simp: builderAfter_def initialRebuildState_def Let_def
           split: option.splits prod.splits if_splits)


lemma rebuildFrames_reemits:
  assumes "rebuildFrames w conn pkt fs st = Inr (aborted, st1)"
  shows "aborted = (Failed \<in> set (reemits w conn pkt fs (builder st))) \<and>
     (\<not> aborted \<longrightarrow>
        notPureAck st1 = (notPureAck st \<or> Cloned \<in> set (reemits w conn pkt fs (builder st))) \<and>
        (fs \<noteq> [] \<longrightarrow> writeSuccess st1))"
  using assms
proof (induction fs arbitrary: st)
  case Nil
  then show ?case by auto
next
  case (Cons frame rest)
  from Cons.prems obtain st2 where f: "rebuildFrame w conn pkt frame st = Inr st2"
    by (cases "rebuildFrame w conn pkt frame st") simp_all
  note r = rebuildFrame_reemit [OF f]
  show ?case
  proof (cases "writeSuccess st2")
    case False
    with Cons.prems f have "aborted" by simp
    with False r show ?thesis by simp
  next
    case True
    with Cons.prems f have rest: "rebuildFrames w conn pkt rest st2 = Inr (aborted, st1)"
      by simp
    from True r have nf: "reemit w conn frame (builder st) \<noteq> Failed" by simp
    from Cons.IH [OF rest] r nf True
    show ?thesis
      by (cases rest) (use rest in \<open>auto\<close>)
  qed
qed

lemma rebuildFrame_returns:
  "\<not> isHandshake pkt \<Longrightarrow> \<exists>st1. rebuildFrame w conn pkt frame st = Inr st1"
  by (cases frame) (auto simp: Let_def split: option.splits prod.splits)

lemma rebuildFrames_returns:
  "\<not> isHandshake pkt \<Longrightarrow> \<exists>r. rebuildFrames w conn pkt fs st = Inr r"
proof (induction fs arbitrary: st)
  case Nil
  show ?case by (auto intro: exI [of _ "(False, st)"])
next
  case (Cons frame rest)
  from rebuildFrame_returns [OF Cons.prems] obtain st1
    where "rebuildFrame w conn pkt frame st = Inr st1" by blast
  with Cons.IH [OF Cons.prems, of st1] show ?case by auto
qed

lemma rebuildFromPacket_returns:
  assumes "\<not> isHandshake pkt"
  shows "\<exists>ev b1 conn1 pkt1. rebuildFromPacket w conn b pkt = Inr (ev, b1, conn1, pkt1)"
proof -
  from rebuildFrames_returns [OF assms] obtain aborted st
    where "rebuildFrames w conn pkt (frames (packet pkt)) (initialRebuildState b) =
      Inr (aborted, st)"
    by (metis surj_pair)
  then show ?thesis
    by (cases aborted) (auto simp: rebuildFromPacket_def split: prod.splits)
qed

lemma rebuildFromPacket_reemits:
  assumes c: "clonable conn pkt"
    and r: "rebuildFromPacket w conn b pkt = Inr (ev, b1, conn1, pkt1)"
  shows "if Failed \<in> set (reemits w conn pkt (frames (packet pkt)) b) \<or>
            Cloned \<notin> set (reemits w conn pkt (frames (packet pkt)) b)
         then ev = None \<and> conn1 = conn \<and> pkt1 = pkt
         else ev = Some (packetEvent pkt) \<and>
              conn1 = conn\<lparr>outstandingPacketEvents :=
                         insert (packetEvent pkt) (outstandingPacketEvents conn),
                       outstandingClonedPacketsCount :=
                         (if associatedEvent pkt = None
                          then outstandingClonedPacketsCount conn + 1
                          else outstandingClonedPacketsCount conn)\<rparr> \<and>
              pkt1 = pkt\<lparr>associatedEvent := Some (packetEvent pkt)\<rparr>"
proof (cases "rebuildFrames w conn pkt (frames (packet pkt)) (initialRebuildState b)")
  case (Inl e)
  with r show ?thesis by (simp add: rebuildFromPacket_def)
next
  case (Inr res)
  obtain aborted st where res: "res = (aborted, st)" by (cases res)
  note loop = Inr [unfolded res]
  from rebuildFrames_reemits [OF loop]
  have ab: "aborted = (Failed \<in> set (reemits w conn pkt (frames (packet pkt)) b))"
    and fl: "\<not> aborted \<Longrightarrow>
      notPureAck st = (Cloned \<in> set (reemits w conn pkt (frames (packet pkt)) b))"
    and ws: "\<not> aborted \<Longrightarrow> frames (packet pkt) \<noteq> [] \<Longrightarrow> writeSuccess st"
    by (simp_all add: initialRebuildState_def)
  have empty: "frames (packet pkt) = [] \<Longrightarrow>
      Cloned \<notin> set (reemits w conn pkt (frames (packet pkt)) b)" by simp
  note res = rebuildFromPacket_cases [OF c loop, unfolded r]
  show ?thesis
  proof (cases "aborted \<or> \<not> notPureAck st")
    case True
    with res have "ev = None \<and> conn1 = conn \<and> pkt1 = pkt" by auto
    moreover from True ab fl
    have "Failed \<in> set (reemits w conn pkt (frames (packet pkt)) b) \<or>
        Cloned \<notin> set (reemits w conn pkt (frames (packet pkt)) b)" by auto
    ultimately show ?thesis by simp
  next
    case False
    then have na: "\<not> aborted" and npa: "notPureAck st" by simp_all
    from fl [OF na] npa
    have cl: "Cloned \<in> set (reemits w conn pkt (frames (packet pkt)) b)" by simp
    with empty have ne: "frames (packet pkt) \<noteq> []" by blast
    from ws [OF na ne] have "writeSuccess st" .
    with res na npa
    have "ev = Some (packetEvent pkt) \<and>
              conn1 = conn\<lparr>outstandingPacketEvents :=
                         insert (packetEvent pkt) (outstandingPacketEvents conn),
                       outstandingClonedPacketsCount :=
                         (if associatedEvent pkt = None
                          then outstandingClonedPacketsCount conn + 1
                          else outstandingClonedPacketsCount conn)\<rparr> \<and>
              pkt1 = pkt\<lparr>associatedEvent := Some (packetEvent pkt)\<rparr>"
      by simp
    moreover from na ab cl
    have "\<not> (Failed \<in> set (reemits w conn pkt (frames (packet pkt)) b) \<or>
        Cloned \<notin> set (reemits w conn pkt (frames (packet pkt)) b))" by simp
    ultimately show ?thesis by simp
  qed
qed

lemma reemit_ack_padding: "isAckOrPadding frame \<Longrightarrow> reemit w conn frame b \<noteq> Cloned"
  by (cases frame) simp_all

lemma reemits_ack_padding:
  "\<forall>frame \<in> set fs. isAckOrPadding frame \<Longrightarrow> Cloned \<notin> set (reemits w conn pkt fs b)"
  by (induction fs arbitrary: b) (auto dest: reemit_ack_padding [THEN not_sym])

lemma rebuildFrame_ack_padding_returns:
  "isAckOrPadding frame \<Longrightarrow> \<exists>st1. rebuildFrame w conn pkt frame st = Inr st1"
  by (cases frame) (auto simp: Let_def split: prod.splits)

lemma rebuildFrames_ack_padding_returns:
  "\<forall>frame \<in> set fs. isAckOrPadding frame \<Longrightarrow> \<exists>r. rebuildFrames w conn pkt fs st = Inr r"
proof (induction fs arbitrary: st)
  case Nil
  show ?case by (auto intro: exI [of _ "(False, st)"])
next
  case (Cons frame rest)
  then have "isAckOrPadding frame" by simp
  from rebuildFrame_ack_padding_returns [OF this] obtain st1
    where "rebuildFrame w conn pkt frame st = Inr st1" by blast
  with Cons.IH [of st1] Cons.prems show ?case by auto
qed

lemma rebuildFromPacket_ack_padding:
  assumes c: "clonable conn pkt"
    and only: "\<forall>frame \<in> set (frames (packet pkt)). isAckOrPadding frame"
  shows "\<exists>b1. rebuildFromPacket w conn b pkt = Inr (None, b1, conn, pkt)"
proof -
  from rebuildFrames_ack_padding_returns [OF only] obtain aborted st
    where "rebuildFrames w conn pkt (frames (packet pkt)) (initialRebuildState b) =
      Inr (aborted, st)"
    by (metis surj_pair)
  from rebuildFromPacket_cases [OF c this] obtain ev b1 conn1 pkt1
    where r: "rebuildFromPacket w conn b pkt = Inr (ev, b1, conn1, pkt1)"
    by (simp split: if_splits)
  from rebuildFromPacket_reemits [OF c r] reemits_ack_padding [OF only, of w conn pkt b]
  have "ev = None \<and> conn1 = conn \<and> pkt1 = pkt" by simp
  with r show ?thesis by blast
qed

text \<open>
  C2, as the code has it: for every clonable outstanding packet P (its associated event
  absent or still in conn.outstandingPacketEvents), rebuildFromPacket returns (no CHECK
  fails) when P is not a handshake packet. When it returns, it returns no clone event,
  and leaves connection and packet as they were, exactly when the re-emit of some frame
  failed (the loop returns at that frame, whatever was cloned before it) or no frame
  other than ACK and PADDING was cloned; the third condition of the source (a window
  update needed, none written, writeSuccess false) never decides. Otherwise it returns
  the event of P (its associated event, or its own packet number when it has none), has
  it in conn.outstandingPacketEvents and as P's associatedEvent, and counts a cloned
  packet when P had no event. In particular a packet of nothing but ACK and PADDING
  frames gives no clone event. After N successful rebuilds of the same packet, one
  after the other, the set is the set before with that one event, every rebuild has
  returned it and at most one was minted.
\<close>

theorem rebuildFromPacket_clone_event:
  assumes "clonable conn pkt"
  shows
  "(\<not> isHandshake pkt \<longrightarrow>
      (\<exists>ev b1 conn1 pkt1. rebuildFromPacket w conn b pkt = Inr (ev, b1, conn1, pkt1))) \<and>
   (\<forall>ev b1 conn1 pkt1.
      rebuildFromPacket w conn b pkt = Inr (ev, b1, conn1, pkt1) \<longrightarrow>
      (if Failed \<in> set (reemits w conn pkt (frames (packet pkt)) b) \<or>
          Cloned \<notin> set (reemits w conn pkt (frames (packet pkt)) b)
       then ev = None \<and> conn1 = conn \<and> pkt1 = pkt
       else ev = Some (packetEvent pkt) \<and>
            conn1 = conn\<lparr>outstandingPacketEvents :=
                       insert (packetEvent pkt) (outstandingPacketEvents conn),
                     outstandingClonedPacketsCount :=
                       (if associatedEvent pkt = None
                        then outstandingClonedPacketsCount conn + 1
                        else outstandingClonedPacketsCount conn)\<rparr> \<and>
            pkt1 = pkt\<lparr>associatedEvent := Some (packetEvent pkt)\<rparr>)) \<and>
   ((\<forall>frame \<in> set (frames (packet pkt)). isAckOrPadding frame) \<longrightarrow>
      (\<exists>b1. rebuildFromPacket w conn b pkt = Inr (None, b1, conn, pkt))) \<and>
   (\<forall>evs conn1 pkt1.
      rebuildRepeatedly w conn pkt bs = Inr (evs, conn1, pkt1) \<and> bs \<noteq> [] \<and> None \<notin> set evs \<longrightarrow>
      outstandingPacketEvents conn1 = insert (packetEvent pkt) (outstandingPacketEvents conn) \<and>
      set evs = {Some (packetEvent pkt)} \<and>
      associatedEvent pkt1 = Some (packetEvent pkt) \<and>
      outstandingClonedPacketsCount conn1 =
        (if associatedEvent pkt = None then outstandingClonedPacketsCount conn + 1
         else outstandingClonedPacketsCount conn))"
proof (intro conjI allI impI)
  show "\<exists>ev b1 conn1 pkt1. rebuildFromPacket w conn b pkt = Inr (ev, b1, conn1, pkt1)"
    if "\<not> isHandshake pkt"
    using that by (rule rebuildFromPacket_returns)
next
  fix ev b1 conn1 pkt1
  assume "rebuildFromPacket w conn b pkt = Inr (ev, b1, conn1, pkt1)"
  then show "if Failed \<in> set (reemits w conn pkt (frames (packet pkt)) b) \<or>
          Cloned \<notin> set (reemits w conn pkt (frames (packet pkt)) b)
       then ev = None \<and> conn1 = conn \<and> pkt1 = pkt
       else ev = Some (packetEvent pkt) \<and>
            conn1 = conn\<lparr>outstandingPacketEvents :=
                       insert (packetEvent pkt) (outstandingPacketEvents conn),
                     outstandingClonedPacketsCount :=
                       (if associatedEvent pkt = None
                        then outstandingClonedPacketsCount conn + 1
                        else outstandingClonedPacketsCount conn)\<rparr> \<and>
            pkt1 = pkt\<lparr>associatedEvent := Some (packetEvent pkt)\<rparr>"
    by (rule rebuildFromPacket_reemits [OF assms])
next
  show "\<exists>b1. rebuildFromPacket w conn b pkt = Inr (None, b1, conn, pkt)"
    if "\<forall>frame \<in> set (frames (packet pkt)). isAckOrPadding frame"
    using assms that by (rule rebuildFromPacket_ack_padding)
next
  fix evs conn1 pkt1
  assume a: "rebuildRepeatedly w conn pkt bs = Inr (evs, conn1, pkt1) \<and> bs \<noteq> [] \<and> None \<notin> set evs"
  then have 1: "rebuildRepeatedly w conn pkt bs = Inr (evs, conn1, pkt1)"
    and 2: "bs \<noteq> []" and 3: "None \<notin> set evs" by simp_all
  from rebuildRepeatedly_successful [OF assms 1 2 3]
  show "outstandingPacketEvents conn1 = insert (packetEvent pkt) (outstandingPacketEvents conn)"
    and "set evs = {Some (packetEvent pkt)}"
    and "associatedEvent pkt1 = Some (packetEvent pkt)"
    and "outstandingClonedPacketsCount conn1 =
        (if associatedEvent pkt = None then outstandingClonedPacketsCount conn + 1
         else outstandingClonedPacketsCount conn)"
    by simp_all
qed

theorem rebuildFromPacket_clone_event_witness:
  "reemits testCodec testConnStream testPacketPing (frames (packet testPacketPing)) testBuilder =
     [Cloned] \<and>
   rebuildFromPacket testCodec testConnStream testBuilder testPacketPing =
     Inr (Some 7, appendFrame (write_b testBuilder 1) (QuicSimpleFrame PingFrame),
          testConnStream\<lparr>outstandingPacketEvents := {7}, outstandingClonedPacketsCount := 1\<rparr>,
          testPacketPing\<lparr>associatedEvent := Some 7\<rparr>) \<and>
   rebuildRepeatedly testCodec testConnStream testPacketPing
      [testBuilder, testBuilder, testBuilder] =
     Inr ([Some 7, Some 7, Some 7],
          testConnStream\<lparr>outstandingPacketEvents := {7}, outstandingClonedPacketsCount := 1\<rparr>,
          testPacketPing\<lparr>associatedEvent := Some 7\<rparr>) \<and>
   reemits testCodec testConnStream
      (testPacketPing\<lparr>packet := (packet testPacketPing)\<lparr>frames := [PaddingFrame]\<rparr>\<rparr>)
      [PaddingFrame] testBuilder = [AckOrPadding] \<and>
   rebuildFromPacket testCodec testConnStream testBuilder
      (testPacketPing\<lparr>packet := (packet testPacketPing)\<lparr>frames := [PaddingFrame]\<rparr>\<rparr>) =
     Inr (None, appendFrame (write_b testBuilder 0) PaddingFrame, testConnStream,
          testPacketPing\<lparr>packet := (packet testPacketPing)\<lparr>frames := [PaddingFrame]\<rparr>\<rparr>)"
proof -
  have c: "clonable testConnStream testPacketPing"
    by (simp add: clonable_def testPacketPing_def)
  have h: "\<not> isHandshake testPacketPing"
    by (simp add: testPacketPing_def)
  have rs: "reemits testCodec testConnStream testPacketPing (frames (packet testPacketPing))
      testBuilder = [Cloned]"
    by (simp add: testPacketPing_def testConnStream_def testConn_def testCodec_def
        testBuilder_def Let_def)
  have r: "rebuildRepeatedly testCodec testConnStream testPacketPing
      [testBuilder, testBuilder, testBuilder] =
     Inr ([Some 7, Some 7, Some 7],
          testConnStream\<lparr>outstandingPacketEvents := {7}, outstandingClonedPacketsCount := 1\<rparr>,
          testPacketPing\<lparr>associatedEvent := Some 7\<rparr>)"
    by (simp add: rebuildFromPacket_def initialRebuildState_def testPacketPing_def
        testConnStream_def testConn_def testCodec_def testBuilder_def
        cloneOutstandingPacket_def appendFrame_def write_b_def Let_def)
  have q: "fst (snd (projr (rebuildFromPacket testCodec testConnStream testBuilder testPacketPing))) =
      appendFrame (write_b testBuilder 1) (QuicSimpleFrame PingFrame)"
    by (simp add: rebuildFromPacket_def initialRebuildState_def testPacketPing_def
        testConnStream_def testConn_def testCodec_def testBuilder_def
        cloneOutstandingPacket_def appendFrame_def write_b_def Let_def)
  have ps: "reemits testCodec testConnStream
      (testPacketPing\<lparr>packet := (packet testPacketPing)\<lparr>frames := [PaddingFrame]\<rparr>\<rparr>)
      [PaddingFrame] testBuilder = [AckOrPadding]"
    by (simp add: testCodec_def testBuilder_def)
  have p: "rebuildFromPacket testCodec testConnStream testBuilder
      (testPacketPing\<lparr>packet := (packet testPacketPing)\<lparr>frames := [PaddingFrame]\<rparr>\<rparr>) =
     Inr (None, appendFrame (write_b testBuilder 0) PaddingFrame, testConnStream,
          testPacketPing\<lparr>packet := (packet testPacketPing)\<lparr>frames := [PaddingFrame]\<rparr>\<rparr>)"
    by (simp add: rebuildFromPacket_def initialRebuildState_def testPacketPing_def
        testCodec_def testBuilder_def Let_def)
  note t = rebuildFromPacket_clone_event [OF c, where w = testCodec and b = testBuilder and
      bs = "[testBuilder, testBuilder, testBuilder]"]
  from t h obtain ev b1 conn1 pkt1
    where e: "rebuildFromPacket testCodec testConnStream testBuilder testPacketPing =
      Inr (ev, b1, conn1, pkt1)"
    by blast
  from t e have "if Failed \<in> set (reemits testCodec testConnStream testPacketPing
          (frames (packet testPacketPing)) testBuilder) \<or>
        Cloned \<notin> set (reemits testCodec testConnStream testPacketPing
          (frames (packet testPacketPing)) testBuilder)
      then ev = None \<and> conn1 = testConnStream \<and> pkt1 = testPacketPing
      else ev = Some (packetEvent testPacketPing) \<and>
           conn1 = testConnStream\<lparr>outstandingPacketEvents :=
                      insert (packetEvent testPacketPing) (outstandingPacketEvents testConnStream),
                    outstandingClonedPacketsCount :=
                      (if associatedEvent testPacketPing = None
                       then outstandingClonedPacketsCount testConnStream + 1
                       else outstandingClonedPacketsCount testConnStream)\<rparr> \<and>
           pkt1 = testPacketPing\<lparr>associatedEvent := Some (packetEvent testPacketPing)\<rparr>"
    by blast
  with rs have "ev = Some 7 \<and>
      conn1 = testConnStream\<lparr>outstandingPacketEvents := {7},
        outstandingClonedPacketsCount := 1\<rparr> \<and>
      pkt1 = testPacketPing\<lparr>associatedEvent := Some 7\<rparr>"
    by (simp add: packetEvent_def testPacketPing_def testConnStream_def testConn_def)
  with e q have "rebuildFromPacket testCodec testConnStream testBuilder testPacketPing =
     Inr (Some 7, appendFrame (write_b testBuilder 1) (QuicSimpleFrame PingFrame),
          testConnStream\<lparr>outstandingPacketEvents := {7}, outstandingClonedPacketsCount := 1\<rparr>,
          testPacketPing\<lparr>associatedEvent := Some 7\<rparr>)"
    by simp
  with rs r ps p show ?thesis by simp
qed

text \<open>
  A packet with a PING frame and a STREAM frame whose data are gone: the PING frame is
  cloned, so something other than ACK and PADDING was cloned and no window update was
  needed, and yet no clone event is returned, because the loop stopped at the STREAM
  frame.
\<close>

theorem rebuildFromPacket_clone_event_counterexample:
  "rebuildFrames testCodec testConnStream testPacketPingStream
      (frames (packet testPacketPingStream)) (initialRebuildState testBuilder) =
     Inr (True,
          \<lparr>builder = appendFrame (write_b testBuilder 1) (QuicSimpleFrame PingFrame),
           writeSuccess = False, windowUpdateWritten = False,
           shouldWriteWindowUpdate = False, notPureAck = True\<rparr>) \<and>
   rebuildFromPacket testCodec testConnStream testBuilder testPacketPingStream =
     Inr (None, appendFrame (write_b testBuilder 1) (QuicSimpleFrame PingFrame),
          testConnStream, testPacketPingStream)"
  by (simp add: rebuildFromPacket_def initialRebuildState_def testPacketPingStream_def
        testConnStream_def testConn_def testCodec_def testBuilder_def
        getStream_def cloneRetransmissionBuffer_def
        appendFrame_def write_b_def encodeQuicInteger_def bigEndianBytes_def Let_def)

end
